theory Spec2Isabelle
  imports Complex_Main
begin

section \<open>Python values used by the player\<close>

text \<open>
  The source is \<^verbatim>\<open>src/app.py\<close>, a PyQt6 audio player that plays a file through an
  external \<^verbatim>\<open>ffplay\<close> process. Its times (\<^verbatim>\<open>time.time()\<close>, \<^verbatim>\<open>start_time\<close>,
  \<^verbatim>\<open>pause_time\<close>, \<^verbatim>\<open>length\<close>) are Python floats. They are modelled as real numbers:
  comparison, \<^verbatim>\<open>min\<close>, \<^verbatim>\<open>max\<close> and \<^verbatim>\<open>int()\<close> are exact on finite floats, while the
  rounding of \<^verbatim>\<open>-\<close>, \<^verbatim>\<open>*\<close> and \<^verbatim>\<open>/\<close> and the values \<^verbatim>\<open>nan\<close> and \<^verbatim>\<open>inf\<close> are outside this
  model; bounds and orders proved in it carry over to doubles, exact equalities of
  differences do not. The pause and resume path is therefore given a second time
  with its subtractions rounded to double precision (the functions whose names end
  in \<open>_double\<close>). Every reading of the wall clock, every \<^verbatim>\<open>poll()\<close> of the child process and
  every result of \<^verbatim>\<open>subprocess.Popen\<close> is an explicit argument of the operation that
  makes the call.
\<close>

datatype py_error = ZeroDivisionError | IndexError | ValueError | LibraryError string

text \<open>\<^verbatim>\<open>int(x)\<close> on a float truncates toward zero.\<close>

definition py_int :: "real \<Rightarrow> int" where
  "py_int x = (if 0 \<le> x then \<lfloor>x\<rfloor> else \<lceil>x\<rceil>)"

text \<open>\<^verbatim>\<open>round(x)\<close> on a float rounds to the nearest integer, a tie to the even one.\<close>

definition py_round :: "real \<Rightarrow> int" where
  "py_round x =
     (let f = \<lfloor>x\<rfloor>; d = x - of_int f
      in if d < 1 / 2 then f
         else if 1 / 2 < d then f + 1
         else if even f then f else f + 1)"

text \<open>\<^verbatim>\<open>x / w\<close> with a float \<^verbatim>\<open>x\<close> and an int \<^verbatim>\<open>w\<close> raises when \<^verbatim>\<open>w\<close> is zero.\<close>

definition py_truediv :: "real \<Rightarrow> int \<Rightarrow> py_error + real" where
  "py_truediv x w = (if w = 0 then Inl ZeroDivisionError else Inr (x / of_int w))"

definition digit_char :: "nat \<Rightarrow> char" where
  "digit_char d = ''0123456789'' ! d"

fun decimal :: "nat \<Rightarrow> string" where
  "decimal n = (if n < 10 then [digit_char n] else decimal (n div 10) @ [digit_char (n mod 10)])"

declare decimal.simps [simp del]

definition zfill :: "nat \<Rightarrow> string \<Rightarrow> string" where
  "zfill w s = replicate (w - length s) (CHR ''0'') @ s"

text \<open>
  The format specification \<^verbatim>\<open>02\<close> of an f-string: the decimal digits of the integer,
  filled with zeros after the sign up to a total width of two characters.
\<close>

definition fmt02 :: "int \<Rightarrow> string" where
  "fmt02 n =
     (if n < 0 then CHR ''-'' # zfill 1 (decimal (nat (- n)))
      else zfill 2 (decimal (nat n)))"

text \<open>\<^verbatim>\<open>os.path.basename\<close>: what follows the last slash.\<close>

definition basename :: "string \<Rightarrow> string" where
  "basename path = rev (takeWhile (\<lambda>c. c \<noteq> CHR ''/'') (rev path))"

definition is_space :: "char \<Rightarrow> bool" where
  "is_space c = (c \<in> set [CHR '' '', CHR 0x09, CHR 0x0A, CHR 0x0B, CHR 0x0C, CHR 0x0D])"

text \<open>\<^verbatim>\<open>bytes.strip()\<close>: ASCII whitespace removed at both ends.\<close>

definition strip :: "string \<Rightarrow> string" where
  "strip s = rev (dropWhile is_space (rev (dropWhile is_space s)))"

section \<open>What the player reads from libraries and the operating system\<close>

text \<open>
  The tag library (mutagen), the GUI toolkit (Qt) and the operating system are not
  part of the repository. Each call the source makes into them is a field of the
  record \<open>world\<close>: the call either raises (\<open>Inl\<close>) or returns (\<open>Inr\<close>).
\<close>

record id3_tags =
  TIT2 :: "string list option"
  TPE1 :: "string list option"
  APIC :: "string list"
  other_frames :: bool

text \<open>\<^verbatim>\<open>if tags:\<close> holds when the tag container has at least one frame.\<close>

definition id3_truthy :: "id3_tags \<Rightarrow> bool" where
  "id3_truthy t = (TIT2 t \<noteq> None \<or> TPE1 t \<noteq> None \<or> APIC t \<noteq> [] \<or> other_frames t)"

text \<open>
  What the source reads of the object \<^verbatim>\<open>MutagenFile\<close> returns: \<open>has_tags\<close> is its
  truth value in \<^verbatim>\<open>if audio:\<close> (the object is dict-like, true when it holds a tag),
  \<open>is_FLAC\<close> is \<^verbatim>\<open>isinstance(audio, FLAC)\<close>, \<open>info_length\<close> is
  \<^verbatim>\<open>float(audio.info.length)\<close> (\<open>None\<close> when there is no \<^verbatim>\<open>info\<close>, \<open>Inl\<close> when reading it
  raises), and the last three are \<^verbatim>\<open>audio.get("title")\<close>, \<^verbatim>\<open>audio.get("artist")\<close> and
  the data of \<^verbatim>\<open>audio.pictures\<close>.
\<close>

record audio_file =
  has_tags :: bool
  is_FLAC :: bool
  info_length :: "(py_error + real) option"
  flac_title :: "string list option"
  flac_artist :: "string list option"
  pictures :: "string list"

record world =
  default_art_exists :: bool
  default_art_loads :: bool
  loadFromData :: "string \<Rightarrow> bool"
  MutagenFile :: "string \<Rightarrow> py_error + audio_file option"
  ID3 :: "string \<Rightarrow> py_error + id3_tags"
  which_ffprobe :: bool
  check_output :: "string \<Rightarrow> py_error + string"
  py_float :: "string \<Rightarrow> py_error + real"
  fromTheme :: "string \<Rightarrow> bool"

section \<open>The state of the window\<close>

datatype pixmap = NullPixmap | DefaultAlbumArt | DarkGray | FromData string | Rounded pixmap

datatype icon = Icon string

record audio_player =
  current_file :: "string option"
  process :: "nat option"
  start_time :: real
  pause_time :: real
  length_sec :: real
  title_label :: string
  album_art_label :: pixmap
  time_label :: string
  slider_value :: int
  slider_enabled :: bool
  slider_dragging :: bool
  play_icon :: "icon option"
  pause_icon :: "icon option"
  btn_icon :: "icon option"
  btn_text :: string

text \<open>
  An operation that can raise leaves the object as it was at the raise:
  \<open>Raised e st\<close> carries the exception and that state.
\<close>

datatype completion = Normal audio_player | Raised py_error audio_player

fun state_of :: "completion \<Rightarrow> audio_player" where
  "state_of (Normal st) = st"
| "state_of (Raised e st) = st"

fun raised :: "completion \<Rightarrow> bool" where
  "raised (Normal st) = False"
| "raised (Raised e st) = True"

section \<open>The functions of the source\<close>

subsection \<open>\<^verbatim>\<open>get_duration_with_ffprobe\<close>\<close>

definition get_duration_with_ffprobe :: "world \<Rightarrow> string \<Rightarrow> real" where
  "get_duration_with_ffprobe w path =
     (if \<not> which_ffprobe w then 0
      else case check_output w path of
             Inl e \<Rightarrow> 0
           | Inr out \<Rightarrow>
               if out = [] then 0
               else (case py_float w (strip out) of Inl e \<Rightarrow> 0 | Inr v \<Rightarrow> v))"

subsection \<open>\<^verbatim>\<open>SeekSlider\<close>\<close>

text \<open>
  The slider of the window has the range that \<^verbatim>\<open>__init__\<close> sets and nothing changes
  afterwards. \<^verbatim>\<open>QSlider.setValue\<close> bounds its argument to the range.
\<close>

definition slider_minimum :: int where
  "slider_minimum = 0"

definition slider_maximum :: int where
  "slider_maximum = 1000"

definition setValue :: "int \<Rightarrow> audio_player \<Rightarrow> audio_player" where
  "setValue v st = st\<lparr>slider_value := max slider_minimum (min slider_maximum v)\<rparr>"

text \<open>
  The value that \<^verbatim>\<open>SeekSlider.mousePressEvent\<close> passes to \<^verbatim>\<open>setValue\<close> on a left-button
  press at x-coordinate \<open>x\<close> of a widget of width \<open>w\<close>.
\<close>

definition mousePressEvent_val :: "int \<Rightarrow> int \<Rightarrow> real \<Rightarrow> int \<Rightarrow> py_error + int" where
  "mousePressEvent_val minimum maximum x w =
     (case py_truediv x w of
        Inl e \<Rightarrow> Inl e
      | Inr q \<Rightarrow>
          (let ratio = max 0 (min 1 q)
           in Inr (py_round (ratio * of_int (maximum - minimum)) + minimum)))"

subsection \<open>Helpers of \<^verbatim>\<open>AudioPlayer\<close>\<close>

fun rounded_pixmap :: "pixmap \<Rightarrow> pixmap" where
  "rounded_pixmap NullPixmap = DarkGray"
| "rounded_pixmap p = Rounded p"

text \<open>
  The pixmap both \<^verbatim>\<open>load_default_pixmap\<close> and \<^verbatim>\<open>extract_metadata\<close> start from: the
  default album art when its file exists (a null pixmap when the file does not decode),
  a dark gray square otherwise.
\<close>

definition default_source_pixmap :: "world \<Rightarrow> pixmap" where
  "default_source_pixmap w =
     (if default_art_exists w
      then (if default_art_loads w then DefaultAlbumArt else NullPixmap)
      else DarkGray)"

definition load_default_pixmap :: "world \<Rightarrow> pixmap" where
  "load_default_pixmap w = rounded_pixmap (default_source_pixmap w)"

definition format_time :: "real \<Rightarrow> string" where
  "format_time seconds =
     (let n = py_int seconds; m = n div 60; s = n mod 60
      in fmt02 m @ '':'' @ fmt02 s)"

definition update_play_pause_icon :: "bool \<Rightarrow> audio_player \<Rightarrow> audio_player" where
  "update_play_pause_icon playing st =
     (if playing then
        (if pause_icon st \<noteq> None then st\<lparr>btn_icon := pause_icon st, btn_text := []\<rparr>
         else st\<lparr>btn_text := ''Pause''\<rparr>)
      else
        (if play_icon st \<noteq> None then st\<lparr>btn_icon := play_icon st, btn_text := []\<rparr>
         else st\<lparr>btn_text := ''Play''\<rparr>))"

text \<open>
  \<^verbatim>\<open>kill_ffplay\<close> signals the child and swallows every exception; of the object it
  changes the process handle and the button.
\<close>

definition kill_ffplay :: "audio_player \<Rightarrow> audio_player" where
  "kill_ffplay st =
     update_play_pause_icon False (if process st \<noteq> None then st\<lparr>process := None\<rparr> else st)"

text \<open>
  \<^verbatim>\<open>start_ffplay\<close>: \<open>popen\<close> is what \<^verbatim>\<open>subprocess.Popen\<close> does (it raises, or returns a
  child with a pid), \<open>now\<close> is the reading of \<^verbatim>\<open>time.time()\<close> after it.
\<close>

definition start_ffplay :: "py_error + nat \<Rightarrow> real \<Rightarrow> real \<Rightarrow> audio_player \<Rightarrow> audio_player" where
  "start_ffplay popen now start_sec st =
     (let st1 = kill_ffplay st
      in if current_file st1 = None then st1
         else (case popen of
                 Inr pid \<Rightarrow>
                   update_play_pause_icon True
                     (st1\<lparr>process := Some pid, start_time := now - start_sec\<rparr>)
               | Inl e \<Rightarrow>
                   update_play_pause_icon False (st1\<lparr>process := None\<rparr>)))"

text \<open>
  \<^verbatim>\<open>play_pause_toggle\<close>: \<open>running\<close> is whether \<^verbatim>\<open>self.process.poll()\<close> is \<^verbatim>\<open>None\<close>.
\<close>

definition play_pause_toggle ::
  "bool \<Rightarrow> real \<Rightarrow> py_error + nat \<Rightarrow> audio_player \<Rightarrow> audio_player" where
  "play_pause_toggle running now popen st =
     (if current_file st = None then st
      else if process st \<noteq> None \<and> running then
        (let st1 = st\<lparr>pause_time := now - start_time st\<rparr>;
             st2 = st1\<lparr>pause_time := max 0 (min (pause_time st1) (length_sec st1))\<rparr>
         in kill_ffplay st2)
      else start_ffplay popen now (pause_time st) st)"

definition stop_internal :: "audio_player \<Rightarrow> audio_player" where
  "stop_internal st =
     (let st1 = kill_ffplay st;
          st2 = st1\<lparr>start_time := 0, pause_time := 0\<rparr>;
          st3 = setValue 0 st2;
          st4 = st3\<lparr>time_label := ''00:00 / '' @
                  format_time (if length_sec st3 \<noteq> 0 then length_sec st3 else 0)\<rparr>
      in update_play_pause_icon False st4)"

definition slider_pressed :: "audio_player \<Rightarrow> audio_player" where
  "slider_pressed st = st\<lparr>slider_dragging := True\<rparr>"

definition update_preview_time :: "int \<Rightarrow> audio_player \<Rightarrow> audio_player" where
  "update_preview_time slider_val st =
     (if length_sec st \<noteq> 0 \<and> slider_dragging st then
        (let pos_ratio = of_int slider_val / 1000;
             pos_seconds = pos_ratio * length_sec st
         in st\<lparr>time_label := format_time pos_seconds @ '' / '' @ format_time (length_sec st)\<rparr>)
      else st)"

definition scrub :: "real \<Rightarrow> py_error + nat \<Rightarrow> audio_player \<Rightarrow> audio_player" where
  "scrub now popen st =
     (let st0 = st\<lparr>slider_dragging := False\<rparr>
      in if current_file st0 = None \<or> length_sec st0 = 0 then st0
         else
           (let pos_ratio = of_int (slider_value st0) / 1000;
                pos_seconds = pos_ratio * length_sec st0;
                st1 = st0\<lparr>pause_time := max 0 (min pos_seconds (length_sec st0))\<rparr>
            in start_ffplay popen now (pause_time st1) st1))"

text \<open>
  The elapsed time of \<^verbatim>\<open>update_slider\<close> (lines 347 to 352): from the wall clock while
  the child runs, the pause offset otherwise, and never more than the length.
\<close>

definition update_slider_elapsed :: "bool \<Rightarrow> real \<Rightarrow> audio_player \<Rightarrow> real" where
  "update_slider_elapsed running now st =
     (let elapsed = (if process st \<noteq> None \<and> running then max 0 (now - start_time st)
                     else pause_time st)
      in min elapsed (length_sec st))"

text \<open>
  \<^verbatim>\<open>update_slider\<close> polls the child twice: \<open>running\<close> is the first answer (the child
  still runs), \<open>exited\<close> the second (the child has ended).
\<close>

definition update_slider :: "bool \<Rightarrow> bool \<Rightarrow> real \<Rightarrow> audio_player \<Rightarrow> audio_player" where
  "update_slider running exited now st =
     (if current_file st = None \<or> length_sec st = 0 \<or> slider_dragging st then st
      else
        (let elapsed = update_slider_elapsed running now st;
             st1 = setValue (if 0 < length_sec st
                             then py_int ((elapsed / length_sec st) * 1000) else 0) st;
             st2 = st1\<lparr>time_label := format_time elapsed @ '' / '' @ format_time (length_sec st1)\<rparr>
         in if process st2 \<noteq> None \<and> exited
            then kill_ffplay (st2\<lparr>pause_time := length_sec st2\<rparr>)
            else st2))"

definition closeEvent :: "audio_player \<Rightarrow> audio_player" where
  "closeEvent st = kill_ffplay st"

subsection \<open>\<^verbatim>\<open>extract_metadata\<close>\<close>

text \<open>
  The three local variables \<^verbatim>\<open>title\<close>, \<^verbatim>\<open>artist\<close> and \<^verbatim>\<open>pixmap\<close>. A block that raises
  hands on the exception together with the locals as they were at the raise.
\<close>

type_synonym tag_locals = "string \<times> string \<times> pixmap"

text \<open>
  \<^verbatim>\<open>frame.text[0] if frame else default\<close> and \<^verbatim>\<open>audio.get(key, [default])[0]\<close>: the
  first entry of the list when the key is there, an \<^verbatim>\<open>IndexError\<close> when the list is
  empty, the default when the key is missing.
\<close>

fun first_or :: "string list option \<Rightarrow> string \<Rightarrow> py_error + string" where
  "first_or None d = Inr d"
| "first_or (Some []) d = Inl IndexError"
| "first_or (Some (t # ts)) d = Inr t"

text \<open>\<^verbatim>\<open>pics[0].data\<close> replaces the pixmap when Qt decodes it.\<close>

fun first_picture :: "world \<Rightarrow> string list \<Rightarrow> pixmap \<Rightarrow> pixmap" where
  "first_picture w [] pixmap = pixmap"
| "first_picture w (d # ds) pixmap = (if loadFromData w d then FromData d else pixmap)"

text \<open>The body of the inner \<^verbatim>\<open>try\<close> (lines 221 to 229).\<close>

definition read_id3 :: "world \<Rightarrow> string \<Rightarrow> tag_locals \<Rightarrow> py_error \<times> tag_locals + tag_locals" where
  "read_id3 w path loc =
     (case loc of (title, artist, pixmap) \<Rightarrow>
        (case ID3 w path of
           Inl e \<Rightarrow> Inl (e, loc)
         | Inr tags \<Rightarrow>
             if \<not> id3_truthy tags then Inr loc
             else (case first_or (TIT2 tags) title of
                     Inl e \<Rightarrow> Inl (e, loc)
                   | Inr title' \<Rightarrow>
                       (case first_or (TPE1 tags) artist of
                          Inl e \<Rightarrow> Inl (e, (title', artist, pixmap))
                        | Inr artist' \<Rightarrow>
                            Inr (title', artist', first_picture w (APIC tags) pixmap)))))"

text \<open>The handler of the inner \<^verbatim>\<open>try\<close> (lines 231 to 238).\<close>

definition read_flac ::
  "world \<Rightarrow> string \<Rightarrow> audio_file \<Rightarrow> tag_locals \<Rightarrow> py_error \<times> tag_locals + tag_locals" where
  "read_flac w file_name audio loc =
     (case loc of (title, artist, pixmap) \<Rightarrow>
        if \<not> is_FLAC audio then Inr loc
        else (case first_or (flac_title audio) file_name of
                Inl e \<Rightarrow> Inl (e, loc)
              | Inr title' \<Rightarrow>
                  (case first_or (flac_artist audio) [] of
                     Inl e \<Rightarrow> Inl (e, (title', artist, pixmap))
                   | Inr artist' \<Rightarrow>
                       Inr (title', artist', first_picture w (pictures audio) pixmap))))"

text \<open>
  The outer \<^verbatim>\<open>try\<close> (lines 218 to 240): its handler prints and goes on with the locals
  as they are.
\<close>

definition read_tags :: "world \<Rightarrow> string \<Rightarrow> string \<Rightarrow> audio_file option \<Rightarrow> tag_locals \<Rightarrow> tag_locals" where
  "read_tags w path file_name audio loc =
     (case audio of
        None \<Rightarrow> loc
      | Some a \<Rightarrow>
          if \<not> has_tags a then loc
          else (case read_id3 w path loc of
                  Inr loc' \<Rightarrow> loc'
                | Inl (e, loc') \<Rightarrow>
                    (case read_flac w file_name a loc' of
                       Inr loc'' \<Rightarrow> loc''
                     | Inl (e', loc'') \<Rightarrow> loc'')))"

text \<open>
  \<^verbatim>\<open>MutagenFile(path)\<close> on line 217 stands before the \<^verbatim>\<open>try\<close>: when it raises,
  \<^verbatim>\<open>extract_metadata\<close> raises.
\<close>

definition extract_metadata :: "world \<Rightarrow> string \<Rightarrow> audio_player \<Rightarrow> completion" where
  "extract_metadata w path st =
     (let file_name = basename path;
          loc = (file_name, [], default_source_pixmap w)
      in case MutagenFile w path of
           Inl e \<Rightarrow> Raised e st
         | Inr audio \<Rightarrow>
             (case read_tags w path file_name audio loc of (title, artist, pixmap) \<Rightarrow>
                Normal (st\<lparr>title_label := (if artist \<noteq> [] then title @ '' - '' @ artist else title),
                           album_art_label := rounded_pixmap pixmap\<rparr>)))"

subsection \<open>\<^verbatim>\<open>load_file\<close>\<close>

text \<open>The length that the duration detection of \<^verbatim>\<open>load_file\<close> reads from the tag library (lines 190 to 195).\<close>

definition mutagen_length :: "audio_file option \<Rightarrow> real" where
  "mutagen_length audio =
     (case audio of
        None \<Rightarrow> 0
      | Some a \<Rightarrow>
          if \<not> has_tags a then 0
          else (case info_length a of
                  None \<Rightarrow> 0
                | Some (Inl e) \<Rightarrow> 0
                | Some (Inr l) \<Rightarrow> l))"

definition load_file ::
  "world \<Rightarrow> real \<Rightarrow> py_error + nat \<Rightarrow> string \<Rightarrow> audio_player \<Rightarrow> completion" where
  "load_file w now popen path st =
     (let st1 = stop_internal st;
          st2 = st1\<lparr>current_file := Some path, start_time := 0, pause_time := 0,
                    slider_enabled := False\<rparr>
      in case extract_metadata w path st2 of
           Raised e st3 \<Rightarrow> Raised e st3
         | Normal st3 \<Rightarrow>
             (case MutagenFile w path of
                Inl e \<Rightarrow> Raised e st3
              | Inr audio \<Rightarrow>
                  (let length0 = mutagen_length audio;
                       length1 = (if length0 \<le> 0.0001 then get_duration_with_ffprobe w path
                                  else length0);
                       st4 = st3\<lparr>length_sec := (if 0 < length1 then length1 else 0)\<rparr>;
                       st5 = st4\<lparr>slider_enabled := (0 < length_sec st4)\<rparr>
                   in Normal (update_play_pause_icon True
                                (start_ffplay popen now (pause_time st5) st5)))))"

definition open_file_dialog ::
  "world \<Rightarrow> real \<Rightarrow> py_error + nat \<Rightarrow> string \<Rightarrow> audio_player \<Rightarrow> completion" where
  "open_file_dialog w now popen path st =
     (if path \<noteq> [] then load_file w now popen path st else Normal st)"

subsection \<open>The window as a machine\<close>

text \<open>\<^verbatim>\<open>AudioPlayer.__init__\<close>.\<close>

definition theme_icon :: "world \<Rightarrow> string \<Rightarrow> icon option" where
  "theme_icon w name = (if fromTheme w name then Some (Icon name) else None)"

definition init :: "world \<Rightarrow> audio_player" where
  "init w =
     \<lparr>current_file = None, process = None, start_time = 0, pause_time = 0, length_sec = 0,
      title_label = ''No track loaded'', album_art_label = load_default_pixmap w,
      time_label = ''00:00 / 00:00'', slider_value = 0, slider_enabled = False,
      slider_dragging = False,
      play_icon = theme_icon w ''media-playback-start'',
      pause_icon = theme_icon w ''media-playback-pause'',
      btn_icon = theme_icon w ''media-playback-start'',
      btn_text = (if fromTheme w ''media-playback-start'' then [] else ''Play'')\<rparr>"

text \<open>
  A left-button press on the slider: \<^verbatim>\<open>SeekSlider.mousePressEvent\<close> sets the value and
  calls \<^verbatim>\<open>scrub\<close>, its \<^verbatim>\<open>click_callback\<close>. Any other button leaves both out. The
  handler of the base class, called last, is Qt's own: what it can do to the window
  (press the handle, move it) are the events \<open>SliderPressed\<close> and \<open>SliderMoved\<close> below.
\<close>

definition mousePressEvent ::
  "bool \<Rightarrow> real \<Rightarrow> int \<Rightarrow> real \<Rightarrow> py_error + nat \<Rightarrow> audio_player \<Rightarrow> completion" where
  "mousePressEvent left x w now popen st =
     (if left then
        (case mousePressEvent_val slider_minimum slider_maximum x w of
           Inl e \<Rightarrow> Raised e st
         | Inr v \<Rightarrow> Normal (scrub now popen (setValue v st)))
      else Normal st)"

text \<open>
  What can happen to the window, with what the environment answers at that moment:
  the signals and events the source connects, each with the clock reading, the poll
  answers and the \<^verbatim>\<open>Popen\<close> result its handler consumes. \<open>SliderMoved v\<close> is the user
  dragging the handle to \<open>v\<close>: Qt stores the value and emits \<^verbatim>\<open>sliderMoved\<close>.
\<close>

datatype event =
    LoadFile world real "py_error + nat" string
  | OpenFileDialog world real "py_error + nat" string
  | PlayPauseClicked bool real "py_error + nat"
  | SliderPressed
  | SliderMoved int
  | SliderReleased real "py_error + nat"
  | MousePress bool real int real "py_error + nat"
  | TimerTimeout bool bool real
  | CloseEvent

fun step :: "event \<Rightarrow> audio_player \<Rightarrow> audio_player" where
  "step (LoadFile w now popen path) st = state_of (load_file w now popen path st)"
| "step (OpenFileDialog w now popen path) st = state_of (open_file_dialog w now popen path st)"
| "step (PlayPauseClicked running now popen) st = play_pause_toggle running now popen st"
| "step SliderPressed st = slider_pressed st"
| "step (SliderMoved v) st = update_preview_time v (setValue v st)"
| "step (SliderReleased now popen) st = scrub now popen st"
| "step (MousePress left x w now popen) st = state_of (mousePressEvent left x w now popen st)"
| "step (TimerTimeout running exited now) st = update_slider running exited now st"
| "step CloseEvent st = closeEvent st"

fun run :: "event list \<Rightarrow> audio_player \<Rightarrow> audio_player" where
  "run [] st = st"
| "run (e # es) st = run es (step e st)"

text \<open>The invariant of the data model: the pause offset lies between zero and the length.\<close>

definition pause_within_length :: "audio_player \<Rightarrow> bool" where
  "pause_within_length st = (0 \<le> pause_time st \<and> pause_time st \<le> length_sec st)"

subsection \<open>Reading a rendering back\<close>

text \<open>
  The value of a string of decimal digits, to say what a rendered time shows.
\<close>

definition digit_val :: "char \<Rightarrow> nat" where
  "digit_val c = of_char c - 48"

definition decimal_val :: "string \<Rightarrow> nat" where
  "decimal_val s = foldl (\<lambda>a c. 10 * a + digit_val c) 0 s"

text \<open>
  The rendering of a time as the specification words it: the minutes, the whole
  seconds divided by sixty, in decimal with at least two digits; a colon; the
  seconds, the remainder, with exactly two digits.
\<close>

definition format_time_spec :: "real \<Rightarrow> string" where
  "format_time_spec t =
     (let n = nat \<lfloor>t\<rfloor>; m = n div 60; s = n mod 60
      in (if m < 10 then CHR ''0'' # decimal m else decimal m) @ '':'' @
         [digit_char (s div 10), digit_char (s mod 10)])"

subsection \<open>The clock arithmetic in double precision\<close>

text \<open>
  Python floats are IEEE binary64 numbers: a result is the exact result rounded to
  the nearest number with a significand of 53 bits, a tie to the one with an even
  significand. \<open>double_exponent x\<close> is the \<open>e\<close> with \<open>2 ^ e \<le> |x| < 2 ^ (e + 1)\<close>, found by
  halving or doubling at most 1100 times, which covers every finite double;
  \<open>round_double x\<close> rounds \<open>x\<close> to the multiples of \<open>2 ^ (e - 52)\<close>. Overflow and
  subnormal numbers are outside the model: clock readings and track positions are
  far from both.
\<close>

fun exponent_from :: "nat \<Rightarrow> real \<Rightarrow> int" where
  "exponent_from 0 x = 0"
| "exponent_from (Suc n) x =
     (if 2 \<le> x then exponent_from n (x / 2) + 1
      else if x < 1 then exponent_from n (2 * x) - 1
      else 0)"

definition double_exponent :: "real \<Rightarrow> int" where
  "double_exponent x = exponent_from 1100 \<bar>x\<bar>"

definition round_double :: "real \<Rightarrow> real" where
  "round_double x =
     (if x = 0 then 0
      else (let u = 2 powi (double_exponent x - 52)
            in of_int (py_round (x / u)) * u))"

text \<open>The subtraction of two floats.\<close>

definition double_sub :: "real \<Rightarrow> real \<Rightarrow> real" where
  "double_sub a b = round_double (a - b)"

text \<open>
  \<^verbatim>\<open>start_ffplay\<close>, \<^verbatim>\<open>play_pause_toggle\<close> and the elapsed time of \<^verbatim>\<open>update_slider\<close> once
  more, with the subtractions of lines 262, 291 and 348 in double precision. Nothing
  else differs from the definitions above.
\<close>

definition start_ffplay_double ::
  "py_error + nat \<Rightarrow> real \<Rightarrow> real \<Rightarrow> audio_player \<Rightarrow> audio_player" where
  "start_ffplay_double popen now start_sec st =
     (let st1 = kill_ffplay st
      in if current_file st1 = None then st1
         else (case popen of
                 Inr pid \<Rightarrow>
                   update_play_pause_icon True
                     (st1\<lparr>process := Some pid, start_time := double_sub now start_sec\<rparr>)
               | Inl e \<Rightarrow>
                   update_play_pause_icon False (st1\<lparr>process := None\<rparr>)))"

definition play_pause_toggle_double ::
  "bool \<Rightarrow> real \<Rightarrow> py_error + nat \<Rightarrow> audio_player \<Rightarrow> audio_player" where
  "play_pause_toggle_double running now popen st =
     (if current_file st = None then st
      else if process st \<noteq> None \<and> running then
        (let st1 = st\<lparr>pause_time := double_sub now (start_time st)\<rparr>;
             st2 = st1\<lparr>pause_time := max 0 (min (pause_time st1) (length_sec st1))\<rparr>
         in kill_ffplay st2)
      else start_ffplay_double popen now (pause_time st) st)"

definition update_slider_elapsed_double :: "bool \<Rightarrow> real \<Rightarrow> audio_player \<Rightarrow> real" where
  "update_slider_elapsed_double running now st =
     (let elapsed = (if process st \<noteq> None \<and> running
                     then max 0 (double_sub now (start_time st))
                     else pause_time st)
      in min elapsed (length_sec st))"

subsection \<open>Concrete worlds and states\<close>

text \<open>
  A world in which the tag library opens the file as a tagged MP3 whose ID3 header
  cannot be read, and in which \<^verbatim>\<open>ffprobe\<close> is not installed.
\<close>

definition mp3_audio :: audio_file where
  "mp3_audio = \<lparr>has_tags = True, is_FLAC = False, info_length = Some (Inr 200),
                 flac_title = None, flac_artist = None, pictures = []\<rparr>"

definition unreadable_tags_world :: world where
  "unreadable_tags_world =
     \<lparr>default_art_exists = True, default_art_loads = True,
      loadFromData = (\<lambda>d. True),
      MutagenFile = (\<lambda>p. Inr (Some mp3_audio)),
      ID3 = (\<lambda>p. Inl (LibraryError ''ID3NoHeaderError'')),
      which_ffprobe = False,
      check_output = (\<lambda>p. Inl (LibraryError ''FileNotFoundError'')),
      py_float = (\<lambda>s. Inl ValueError),
      fromTheme = (\<lambda>n. True)\<rparr>"

text \<open>A track of 200 seconds, loaded and playing since clock reading 1000.\<close>

definition playing_state :: audio_player where
  "playing_state =
     (init unreadable_tags_world)
       \<lparr>current_file := Some ''/music/song.mp3'', process := Some 7, start_time := 1000,
        length_sec := 200, slider_value := 250, slider_enabled := True\<rparr>"

text \<open>
  The same world with a file the tag library cannot parse (\<^verbatim>\<open>MutagenFile\<close> raises), and
  with a file whose type it does not know (\<^verbatim>\<open>MutagenFile\<close> returns \<^verbatim>\<open>None\<close>).
\<close>

definition corrupt_file_world :: world where
  "corrupt_file_world =
     unreadable_tags_world\<lparr>MutagenFile := (\<lambda>p. Inl (LibraryError ''HeaderNotFoundError''))\<rparr>"

definition unknown_type_world :: world where
  "unknown_type_world = unreadable_tags_world\<lparr>MutagenFile := (\<lambda>p. Inr None)\<rparr>"

text \<open>
  A track whose length is the double nearest to 3.7675 seconds, playing since clock
  reading 1730000000.
\<close>

definition epoch_state :: audio_player where
  "epoch_state =
     playing_state\<lparr>start_time := 1730000000, length_sec := 2120913949514793 / 2 ^ 49\<rparr>"

section \<open>Properties\<close>

subsection \<open>Decimal renderings\<close>

lemma py_int_nonneg: "0 \<le> t \<Longrightarrow> py_int t = \<lfloor>t\<rfloor>"
  by (simp add: py_int_def)

lemma digit_val_digit_char: "d < 10 \<Longrightarrow> digit_val (digit_char d) = d"
proof -
  assume "d < 10"
  then consider "d = 0" | "d = 1" | "d = 2" | "d = 3" | "d = 4" | "d = 5" | "d = 6" | "d = 7"
    | "d = 8" | "d = 9"
    by atomize_elim arith
  then show ?thesis
    by cases (simp_all add: digit_val_def digit_char_def)
qed

lemma decimal_lt_10: "n < 10 \<Longrightarrow> decimal n = [digit_char n]"
  by (simp add: decimal.simps)

lemma decimal_ge_10: "10 \<le> n \<Longrightarrow> decimal n = decimal (n div 10) @ [digit_char (n mod 10)]"
  by (subst decimal.simps) simp

lemma length_decimal_pos: "0 < length (decimal n)"
  by (subst decimal.simps) simp

lemma length_decimal_two: "10 \<le> n \<Longrightarrow> 2 \<le> length (decimal n)"
  using length_decimal_pos [of "n div 10"] by (simp add: decimal_ge_10 Suc_le_eq)

lemma decimal_two_digits:
  "10 \<le> n \<Longrightarrow> n < 100 \<Longrightarrow> decimal n = [digit_char (n div 10), digit_char (n mod 10)]"
  by (simp add: decimal_ge_10 decimal_lt_10)

lemma decimal_val_snoc: "decimal_val (s @ [c]) = 10 * decimal_val s + digit_val c"
  by (simp add: decimal_val_def)

lemma decimal_val_decimal: "decimal_val (decimal n) = n"
proof (induction n rule: decimal.induct)
  case (1 n)
  show ?case
  proof (cases "n < 10")
    case True
    then show ?thesis
      by (simp add: decimal_lt_10 decimal_val_def digit_val_digit_char)
  next
    case False
    then have "decimal_val (decimal (n div 10)) = n div 10"
      using "1" by simp
    with False show ?thesis
      by (simp add: decimal_ge_10 decimal_val_snoc digit_val_digit_char)
  qed
qed

lemma zfill_2_decimal:
  "zfill 2 (decimal m) = (if m < 10 then CHR ''0'' # decimal m else decimal m)"
proof (cases "m < 10")
  case True
  then show ?thesis by (simp add: zfill_def decimal_lt_10)
next
  case False
  then have "2 \<le> length (decimal m)" by (simp add: length_decimal_two)
  with False show ?thesis by (simp add: zfill_def)
qed

lemma zfill_2_seconds:
  assumes "s < 60"
  shows "zfill 2 (decimal s) = [digit_char (s div 10), digit_char (s mod 10)]"
proof (cases "s < 10")
  case True
  then show ?thesis by (simp add: zfill_def decimal_lt_10 digit_char_def)
next
  case False
  with assms show ?thesis by (simp add: zfill_def decimal_two_digits)
qed

lemma fmt02_nonneg: "0 \<le> n \<Longrightarrow> fmt02 n = zfill 2 (decimal (nat n))"
  by (simp add: fmt02_def)

lemma format_time_nonneg:
  assumes "0 \<le> t"
  shows "format_time t = format_time_spec t"
proof -
  have n: "py_int t = \<lfloor>t\<rfloor>" and n0: "0 \<le> \<lfloor>t\<rfloor>"
    using assms by (simp_all add: py_int_nonneg)
  have m: "nat (\<lfloor>t\<rfloor> div 60) = nat \<lfloor>t\<rfloor> div 60"
    using n0 by (simp add: nat_div_distrib)
  have s: "nat (\<lfloor>t\<rfloor> mod 60) = nat \<lfloor>t\<rfloor> mod 60"
    using n0 by (simp add: nat_mod_distrib)
  have "format_time t
          = zfill 2 (decimal (nat \<lfloor>t\<rfloor> div 60)) @ '':'' @ zfill 2 (decimal (nat \<lfloor>t\<rfloor> mod 60))"
    using n0 by (simp add: format_time_def n Let_def fmt02_nonneg m s pos_imp_zdiv_nonneg_iff)
  also have "\<dots> = format_time_spec t"
    unfolding format_time_spec_def Let_def
    by (subst zfill_2_seconds) (simp_all add: zfill_2_decimal)
  finally show ?thesis .
qed

text \<open>
  C8. For a time \<open>t\<close> of at least zero seconds, \<^verbatim>\<open>format_time\<close> renders the whole
  seconds \<open>\<lfloor>t\<rfloor>\<close> as minutes, colon, seconds: the result is the rendering the
  specification words, the seconds component lies in \<open>[0, 60)\<close>, the colon stands third
  from the end, the two characters after it read as \<open>\<lfloor>t\<rfloor> mod 60\<close> and the characters
  before it, at least two, read as \<open>\<lfloor>t\<rfloor> div 60\<close>.
\<close>

theorem format_time_zero_padded:
  assumes "0 \<le> t"
  shows "format_time t = format_time_spec t
    \<and> 0 \<le> py_int t mod 60 \<and> py_int t mod 60 < 60
    \<and> 5 \<le> length (format_time t)
    \<and> format_time t ! (length (format_time t) - 3) = CHR '':''
    \<and> decimal_val (take (length (format_time t) - 3) (format_time t)) = nat \<lfloor>t\<rfloor> div 60
    \<and> decimal_val (drop (length (format_time t) - 2) (format_time t)) = nat \<lfloor>t\<rfloor> mod 60"
proof -
  define m where "m = nat \<lfloor>t\<rfloor> div 60"
  define s where "s = nat \<lfloor>t\<rfloor> mod 60"
  define ms where "ms = zfill 2 (decimal m)"
  define ss where "ss = [digit_char (s div 10), digit_char (s mod 10)]"
  have s60: "s < 60" by (simp add: s_def)
  have eq: "format_time t = format_time_spec t"
    using assms by (rule format_time_nonneg)
  have ft: "format_time t = ms @ '':'' @ ss"
    by (simp add: eq format_time_spec_def Let_def ms_def ss_def m_def s_def zfill_2_decimal)
  have lms: "2 \<le> length ms"
    using length_decimal_two [of m]
    by (cases "m < 10") (simp_all add: ms_def zfill_def decimal_lt_10)
  have vms: "decimal_val ms = m"
  proof (cases "m < 10")
    case True
    then have "ms = [CHR ''0'', digit_char m]"
      by (simp add: ms_def zfill_def decimal_lt_10)
    moreover have "digit_val (CHR ''0'') = 0"
      by (simp add: digit_val_def)
    ultimately show ?thesis
      using True by (simp add: decimal_val_def digit_val_digit_char)
  next
    case False
    then show ?thesis by (simp add: ms_def zfill_2_decimal decimal_val_decimal)
  qed
  have vss: "decimal_val ss = s"
    using s60 by (simp add: ss_def decimal_val_def digit_val_digit_char)
  have len: "length (format_time t) = length ms + 3"
    by (simp add: ft ss_def)
  have "0 \<le> py_int t mod 60 \<and> py_int t mod 60 < 60" by simp
  moreover have "5 \<le> length (format_time t)" using lms len by simp
  moreover have "format_time t ! (length (format_time t) - 3) = CHR '':''"
    by (simp add: len) (simp add: ft nth_append)
  moreover have "decimal_val (take (length (format_time t) - 3) (format_time t)) = m"
    by (simp add: len) (simp add: ft vms)
  moreover have "decimal_val (drop (length (format_time t) - 2) (format_time t)) = s"
    by (simp add: len) (simp add: ft vss)
  ultimately show ?thesis using eq by (simp add: m_def s_def)
qed

theorem format_time_zero_padded_witness:
  "(0::real) \<le> 125.7 \<and> format_time 125.7 = ''02:05'' \<and> format_time_spec 125.7 = ''02:05''"
  using format_time_zero_padded [of "125.7"]
  by (simp add: format_time_spec_def decimal.simps digit_char_def)

subsection \<open>What the process control leaves alone, and rounding\<close>

lemma py_round_cases: "py_round y = \<lfloor>y\<rfloor> \<or> py_round y = \<lfloor>y\<rfloor> + 1"
  by (simp add: py_round_def Let_def)

lemma py_round_lower: "0 \<le> y \<Longrightarrow> 0 \<le> py_round y"
  using py_round_cases [of y] by (auto simp: zero_le_floor)

lemma py_round_upper:
  assumes "y \<le> of_int n"
  shows "py_round y \<le> n"
proof (cases "py_round y = \<lfloor>y\<rfloor>")
  case True
  then show ?thesis using assms by (simp add: floor_le_iff)
next
  case False
  then have r: "py_round y = \<lfloor>y\<rfloor> + 1" using py_round_cases [of y] by simp
  have "y - of_int \<lfloor>y\<rfloor> \<noteq> 0"
    using False by (auto simp: py_round_def Let_def)
  then have "y \<noteq> of_int n" by auto
  with assms have "y < of_int n" by simp
  then have "\<lfloor>y\<rfloor> < n" by (simp add: floor_less_iff)
  with r show ?thesis by simp
qed

lemma mousePressEvent_val_range:
  assumes "0 < w" and "minimum \<le> maximum"
  shows "\<exists>v. mousePressEvent_val minimum maximum x w = Inr v \<and> minimum \<le> v \<and> v \<le> maximum"
proof -
  define ratio :: real where "ratio = max 0 (min 1 (x / of_int w))"
  define span :: real where "span = of_int (maximum - minimum)"
  have r: "0 \<le> ratio" "ratio \<le> 1" by (simp_all add: ratio_def)
  have s: "0 \<le> span" using assms(2) by (simp add: span_def)
  have lo: "0 \<le> ratio * span" using r s by simp
  have hi: "ratio * span \<le> of_int (maximum - minimum)"
    using r s mult_left_le_one_le [of span ratio] by (simp add: span_def mult.commute)
  have v: "mousePressEvent_val minimum maximum x w = Inr (py_round (ratio * span) + minimum)"
    using assms(1) by (simp add: mousePressEvent_val_def py_truediv_def ratio_def span_def Let_def)
  from py_round_lower [OF lo] py_round_upper [OF hi] v show ?thesis by simp
qed

lemma kill_ffplay_fields [simp]:
  "process (kill_ffplay st) = None"
  "current_file (kill_ffplay st) = current_file st"
  "start_time (kill_ffplay st) = start_time st"
  "pause_time (kill_ffplay st) = pause_time st"
  "length_sec (kill_ffplay st) = length_sec st"
  "slider_value (kill_ffplay st) = slider_value st"
  "slider_enabled (kill_ffplay st) = slider_enabled st"
  "slider_dragging (kill_ffplay st) = slider_dragging st"
  "time_label (kill_ffplay st) = time_label st"
  "title_label (kill_ffplay st) = title_label st"
  "album_art_label (kill_ffplay st) = album_art_label st"
  by (simp_all add: kill_ffplay_def update_play_pause_icon_def)

lemma update_play_pause_icon_fields [simp]:
  "process (update_play_pause_icon b st) = process st"
  "current_file (update_play_pause_icon b st) = current_file st"
  "start_time (update_play_pause_icon b st) = start_time st"
  "pause_time (update_play_pause_icon b st) = pause_time st"
  "length_sec (update_play_pause_icon b st) = length_sec st"
  "slider_value (update_play_pause_icon b st) = slider_value st"
  "slider_enabled (update_play_pause_icon b st) = slider_enabled st"
  "slider_dragging (update_play_pause_icon b st) = slider_dragging st"
  "time_label (update_play_pause_icon b st) = time_label st"
  "title_label (update_play_pause_icon b st) = title_label st"
  "album_art_label (update_play_pause_icon b st) = album_art_label st"
  by (simp_all add: update_play_pause_icon_def)

lemma start_ffplay_fields [simp]:
  "current_file (start_ffplay popen now s st) = current_file st"
  "pause_time (start_ffplay popen now s st) = pause_time st"
  "length_sec (start_ffplay popen now s st) = length_sec st"
  "slider_value (start_ffplay popen now s st) = slider_value st"
  "slider_enabled (start_ffplay popen now s st) = slider_enabled st"
  "slider_dragging (start_ffplay popen now s st) = slider_dragging st"
  "time_label (start_ffplay popen now s st) = time_label st"
  "title_label (start_ffplay popen now s st) = title_label st"
  "album_art_label (start_ffplay popen now s st) = album_art_label st"
  by (simp_all add: start_ffplay_def Let_def split: sum.split)

lemma start_ffplay_spawned:
  "current_file st \<noteq> None \<Longrightarrow>
   process (start_ffplay (Inr pid) now s st) = Some pid \<and>
   start_time (start_ffplay (Inr pid) now s st) = now - s"
  by (simp add: start_ffplay_def Let_def)

lemma start_ffplay_failed:
  "process (start_ffplay (Inl e) now s st) = None \<and>
   start_time (start_ffplay (Inl e) now s st) = start_time st"
  by (simp add: start_ffplay_def Let_def)

lemma scrub_slider_value [simp]: "slider_value (scrub now popen st) = slider_value st"
  by (simp add: scrub_def Let_def)

subsection \<open>The seek slider\<close>

text \<open>
  C9. A left-button press at any x-coordinate on a slider of width \<open>w > 0\<close> does not
  raise; the ratio \<open>x / w\<close> is clamped to \<open>[0, 1]\<close> and the value handed to
  \<^verbatim>\<open>setValue\<close> lies between the minimum and the maximum of the slider, for the
  slider of the window (range 0 to 1000) and for every range with minimum at most
  maximum. The handler raises \<^verbatim>\<open>ZeroDivisionError\<close> exactly when the width is zero.
\<close>

theorem mousePressEvent_in_range:
  assumes "0 < w"
  shows "(\<exists>v. mousePressEvent_val slider_minimum slider_maximum x w = Inr v
            \<and> slider_minimum \<le> v \<and> v \<le> slider_maximum
            \<and> v = py_round (max 0 (min 1 (x / of_int w)) * of_int (slider_maximum - slider_minimum)) + slider_minimum
            \<and> 0 \<le> max 0 (min 1 (x / of_int w)) \<and> max 0 (min 1 (x / of_int w)) \<le> 1
            \<and> mousePressEvent True x w now popen st = Normal (scrub now popen (st\<lparr>slider_value := v\<rparr>)))
       \<and> (\<forall>lo hi. lo \<le> hi \<longrightarrow>
            (\<exists>v. mousePressEvent_val lo hi x w = Inr v \<and> lo \<le> v \<and> v \<le> hi))
       \<and> (\<forall>lo hi w'. (mousePressEvent_val lo hi x w' = Inl ZeroDivisionError) = (w' = 0))"
proof -
  have le: "slider_minimum \<le> slider_maximum"
    by (simp add: slider_minimum_def slider_maximum_def)
  from mousePressEvent_val_range [OF assms le, of x]
  obtain v where v: "mousePressEvent_val slider_minimum slider_maximum x w = Inr v"
    and b: "slider_minimum \<le> v" "v \<le> slider_maximum"
    by blast
  have f: "v = py_round (max 0 (min 1 (x / of_int w)) * of_int (slider_maximum - slider_minimum)) + slider_minimum"
    using v assms by (simp add: mousePressEvent_val_def py_truediv_def Let_def)
  have sv: "setValue v st = st\<lparr>slider_value := v\<rparr>"
    using b by (simp add: setValue_def)
  have m: "mousePressEvent True x w now popen st = Normal (scrub now popen (st\<lparr>slider_value := v\<rparr>))"
    by (simp add: mousePressEvent_def v sv)
  have z: "\<forall>lo hi w'. (mousePressEvent_val lo hi x w' = Inl ZeroDivisionError) = (w' = 0)"
    by (simp add: mousePressEvent_val_def py_truediv_def Let_def)
  have g: "\<forall>lo hi. lo \<le> hi \<longrightarrow> (\<exists>v. mousePressEvent_val lo hi x w = Inr v \<and> lo \<le> v \<and> v \<le> hi)"
    using mousePressEvent_val_range [OF assms] by blast
  show ?thesis using v b f m z g by simp
qed

theorem mousePressEvent_in_range_witness:
  "(0::int) < 400
   \<and> mousePressEvent_val slider_minimum slider_maximum 150 400 = Inr 375
   \<and> mousePressEvent_val slider_minimum slider_maximum 150 0 = Inl ZeroDivisionError
   \<and> slider_value (state_of (mousePressEvent True 150 400 1100 (Inr 8) playing_state)) = 375"
proof -
  have v: "mousePressEvent_val slider_minimum slider_maximum 150 400 = Inr 375"
    by (simp add: mousePressEvent_val_def py_truediv_def slider_minimum_def slider_maximum_def
        py_round_def Let_def)
  have w: "(0::int) < 400" by simp
  from mousePressEvent_in_range [OF w, of 150 1100 "Inr 8" playing_state]
  have m: "mousePressEvent True 150 400 1100 (Inr 8) playing_state
             = Normal (scrub 1100 (Inr 8) (playing_state\<lparr>slider_value := 375\<rparr>))"
    and z: "(mousePressEvent_val slider_minimum slider_maximum 150 0 = Inl ZeroDivisionError)"
    by (auto simp add: v)
  show ?thesis using v z by (simp add: m)
qed

subsection \<open>Nothing loaded\<close>

text \<open>
  C10. With no track loaded, \<^verbatim>\<open>play_pause_toggle\<close> returns the object unchanged (so
  \<^verbatim>\<open>start_time\<close>, \<^verbatim>\<open>pause_time\<close>, \<^verbatim>\<open>length\<close> and the process handle are as before); with
  no track loaded or a length of zero, \<^verbatim>\<open>scrub\<close> clears the dragging flag and changes
  nothing else.
\<close>

theorem no_track_no_effect:
  "(current_file st = None \<longrightarrow> play_pause_toggle running now popen st = st)
   \<and> (current_file st = None \<or> length_sec st = 0 \<longrightarrow>
        scrub now popen st = st\<lparr>slider_dragging := False\<rparr>)"
  by (simp add: play_pause_toggle_def scrub_def Let_def)

theorem no_track_no_effect_witness:
  "current_file (init unreadable_tags_world) = None
   \<and> play_pause_toggle True 5 (Inr 1) (init unreadable_tags_world) = init unreadable_tags_world
   \<and> length_sec (playing_state\<lparr>length_sec := 0\<rparr>) = 0
   \<and> scrub 5 (Inr 1) (playing_state\<lparr>length_sec := 0\<rparr>)
        = playing_state\<lparr>length_sec := 0, slider_dragging := False\<rparr>"
  using no_track_no_effect [of "init unreadable_tags_world" True 5 "Inr 1"]
    no_track_no_effect [of "playing_state\<lparr>length_sec := 0\<rparr>" True 5 "Inr 1"]
  by (simp add: init_def)

subsection \<open>Seeking\<close>

text \<open>
  C3. For a loaded track of positive length and a slider value \<open>v\<close> in \<open>[0, 1000]\<close>,
  \<^verbatim>\<open>scrub\<close> sets \<^verbatim>\<open>pause_time\<close> to \<open>max 0 (min (v / 1000 * length) length)\<close>, a value
  in \<open>[0, length]\<close>, and calls \<^verbatim>\<open>start_ffplay\<close> at that position: when the child
  starts, it is the new process and \<^verbatim>\<open>start_time\<close> is the clock reading minus the
  position; when it does not start, there is no process.
\<close>

theorem scrub_clamps:
  assumes "current_file st \<noteq> None" and "0 < length_sec st"
    and "0 \<le> slider_value st" and "slider_value st \<le> 1000"
  shows "pause_time (scrub now popen st)
           = max 0 (min (of_int (slider_value st) / 1000 * length_sec st) (length_sec st))
       \<and> 0 \<le> pause_time (scrub now popen st)
       \<and> pause_time (scrub now popen st) \<le> length_sec st
       \<and> length_sec (scrub now popen st) = length_sec st
       \<and> scrub now popen st
           = start_ffplay popen now (pause_time (scrub now popen st))
               (st\<lparr>slider_dragging := False, pause_time := pause_time (scrub now popen st)\<rparr>)
       \<and> (case popen of
             Inr pid \<Rightarrow> process (scrub now popen st) = Some pid
                        \<and> start_time (scrub now popen st) = now - pause_time (scrub now popen st)
           | Inl e \<Rightarrow> process (scrub now popen st) = None)"
proof -
  define pos where "pos = max 0 (min (of_int (slider_value st) / 1000 * length_sec st) (length_sec st))"
  define st1 where "st1 = st\<lparr>slider_dragging := False, pause_time := pos\<rparr>"
  have s: "scrub now popen st = start_ffplay popen now pos st1"
    using assms(1,2) by (auto simp add: scrub_def Let_def pos_def st1_def)
  have p: "pause_time (scrub now popen st) = pos"
    by (simp add: s st1_def)
  have b: "0 \<le> pos" "pos \<le> length_sec st"
    using assms(2) by (simp_all add: pos_def)
  have cf: "current_file st1 \<noteq> None" using assms(1) by (simp add: st1_def)
  have pr: "case popen of
             Inr pid \<Rightarrow> process (scrub now popen st) = Some pid
                        \<and> start_time (scrub now popen st) = now - pos
           | Inl e \<Rightarrow> process (scrub now popen st) = None"
  proof (cases popen)
    case (Inl e)
    then show ?thesis
      using start_ffplay_failed [of e now pos st1] s by simp
  next
    case (Inr pid)
    then show ?thesis
      using start_ffplay_spawned [OF cf, of pid now pos] s by simp
  qed
  have l: "length_sec (scrub now popen st) = length_sec st"
    by (simp add: s st1_def)
  show ?thesis
    unfolding p using b pr l s by (simp add: pos_def st1_def)
qed

theorem scrub_clamps_witness:
  "current_file playing_state \<noteq> None \<and> 0 < length_sec playing_state
   \<and> 0 \<le> slider_value playing_state \<and> slider_value playing_state \<le> 1000
   \<and> pause_time (scrub 1100 (Inr 8) playing_state) = 50
   \<and> process (scrub 1100 (Inr 8) playing_state) = Some 8
   \<and> start_time (scrub 1100 (Inr 8) playing_state) = 1050"
proof -
  have h: "current_file playing_state \<noteq> None" "0 < length_sec playing_state"
    "0 \<le> slider_value playing_state" "slider_value playing_state \<le> 1000"
    by (simp_all add: playing_state_def)
  have v: "slider_value playing_state = 250" "length_sec playing_state = 200"
    by (simp_all add: playing_state_def)
  show ?thesis
    using h scrub_clamps [OF h, of 1100 "Inr 8"] by (simp add: v)
qed

subsection \<open>The elapsed time on display\<close>

lemma py_int_mono: "x \<le> y \<Longrightarrow> py_int x \<le> py_int y"
proof -
  assume xy: "x \<le> y"
  show ?thesis
  proof (cases "0 \<le> x")
    case True
    with xy show ?thesis by (simp add: py_int_def floor_mono)
  next
    case False
    show ?thesis
    proof (cases "0 \<le> y")
      case True
      have "\<lceil>x\<rceil> \<le> 0" using False by (simp add: ceiling_le_iff)
      moreover have "0 \<le> \<lfloor>y\<rfloor>" using True by simp
      ultimately have "\<lceil>x\<rceil> \<le> \<lfloor>y\<rfloor>" by (rule order_trans)
      then show ?thesis using False True by (simp add: py_int_def)
    next
      case y: False
      with False xy show ?thesis by (simp add: py_int_def ceiling_mono)
    qed
  qed
qed

lemma update_slider_elapsed_le: "update_slider_elapsed running now st \<le> length_sec st"
  by (simp add: update_slider_elapsed_def Let_def)

lemma slider_fraction_le:
  assumes "0 < l" and "e \<le> l"
  shows "py_int (e / l * 1000) \<le> 1000"
proof -
  have "e / l * 1000 \<le> 1000" using assms by (simp add: pos_divide_le_eq)
  then have "py_int (e / l * 1000) \<le> py_int 1000" by (rule py_int_mono)
  then show ?thesis by (simp add: py_int_def)
qed

lemma minutes_seconds_mono:
  fixes a b :: int
  assumes "a \<le> b"
  shows "a div 60 < b div 60 \<or> (a div 60 = b div 60 \<and> a mod 60 \<le> b mod 60)"
proof -
  have d: "a div 60 \<le> b div 60" using assms by (simp add: zdiv_mono1)
  show ?thesis
  proof (cases "a div 60 = b div 60")
    case True
    have "a = 60 * (a div 60) + a mod 60" "b = 60 * (b div 60) + b mod 60" by simp_all
    with True assms have "a mod 60 \<le> b mod 60" by linarith
    with True show ?thesis by simp
  next
    case False
    with d show ?thesis by simp
  qed
qed

lemma update_slider_writes:
  assumes "current_file st \<noteq> None" and "length_sec st \<noteq> 0" and "\<not> slider_dragging st"
  shows "slider_value (update_slider running exited now st)
           = max slider_minimum (min slider_maximum
               (if 0 < length_sec st
                then py_int (update_slider_elapsed running now st / length_sec st * 1000) else 0))"
    and "time_label (update_slider running exited now st)
           = format_time (update_slider_elapsed running now st) @ '' / '' @ format_time (length_sec st)"
  using assms by (auto simp add: update_slider_def Let_def setValue_def)

text \<open>
  C2. In a state with positive length, the elapsed time of \<^verbatim>\<open>update_slider\<close> is at
  most the length; the slider value computed from it is at most 1000 and the whole
  seconds it renders are at most those of the length, minutes first and then seconds.
  When \<^verbatim>\<open>update_slider\<close> does not return early it writes exactly these to the slider
  and the time label; when it returns early it writes nothing.
\<close>

theorem elapsed_never_exceeds_length:
  assumes "0 < length_sec st"
  shows "update_slider_elapsed running now st \<le> length_sec st
       \<and> py_int (update_slider_elapsed running now st / length_sec st * 1000) \<le> 1000
       \<and> py_int (update_slider_elapsed running now st) \<le> py_int (length_sec st)
       \<and> (py_int (update_slider_elapsed running now st) div 60 < py_int (length_sec st) div 60
            \<or> (py_int (update_slider_elapsed running now st) div 60 = py_int (length_sec st) div 60
                \<and> py_int (update_slider_elapsed running now st) mod 60
                     \<le> py_int (length_sec st) mod 60))
       \<and> (if current_file st = None \<or> slider_dragging st
           then update_slider running exited now st = st
           else slider_value (update_slider running exited now st)
                  = max 0 (py_int (update_slider_elapsed running now st / length_sec st * 1000))
              \<and> slider_value (update_slider running exited now st) \<le> 1000
              \<and> time_label (update_slider running exited now st)
                  = format_time (update_slider_elapsed running now st) @ '' / ''
                      @ format_time (length_sec st))"
proof -
  define e where "e = update_slider_elapsed running now st"
  have le: "e \<le> length_sec st"
    by (simp add: e_def update_slider_elapsed_le)
  have fr: "py_int (e / length_sec st * 1000) \<le> 1000"
    using assms le by (rule slider_fraction_le)
  have pi: "py_int e \<le> py_int (length_sec st)"
    using le by (rule py_int_mono)
  have ms: "py_int e div 60 < py_int (length_sec st) div 60
            \<or> (py_int e div 60 = py_int (length_sec st) div 60
                \<and> py_int e mod 60 \<le> py_int (length_sec st) mod 60)"
    using pi by (rule minutes_seconds_mono)
  have wr: "if current_file st = None \<or> slider_dragging st
           then update_slider running exited now st = st
           else slider_value (update_slider running exited now st)
                  = max 0 (py_int (e / length_sec st * 1000))
              \<and> slider_value (update_slider running exited now st) \<le> 1000
              \<and> time_label (update_slider running exited now st)
                  = format_time e @ '' / '' @ format_time (length_sec st)"
  proof (cases "current_file st = None \<or> slider_dragging st")
    case True
    then show ?thesis by (auto simp add: update_slider_def)
  next
    case False
    then have h: "current_file st \<noteq> None" "length_sec st \<noteq> 0" "\<not> slider_dragging st"
      using assms by simp_all
    from update_slider_writes [OF h, of running exited now] fr assms
    show ?thesis
      by (simp add: False e_def slider_minimum_def slider_maximum_def)
  qed
  show ?thesis
    using le fr pi ms wr unfolding e_def by simp
qed

theorem elapsed_never_exceeds_length_witness:
  "0 < length_sec playing_state
   \<and> update_slider_elapsed True 1250 playing_state = 200
   \<and> slider_value (update_slider True False 1250 playing_state) = 1000
   \<and> time_label (update_slider True False 1250 playing_state) = ''03:20 / 03:20''
   \<and> slider_value (update_slider True False 1030 playing_state) = 150
   \<and> time_label (update_slider True False 1030 playing_state) = ''00:30 / 03:20''"
proof -
  have l: "0 < length_sec playing_state" "length_sec playing_state = 200"
    "current_file playing_state \<noteq> None" "\<not> slider_dragging playing_state"
    by (simp_all add: playing_state_def init_def)
  have e1: "update_slider_elapsed True 1250 playing_state = 200"
    by (simp add: update_slider_elapsed_def playing_state_def)
  have e2: "update_slider_elapsed True 1030 playing_state = 30"
    by (simp add: update_slider_elapsed_def playing_state_def)
  have f: "format_time 200 = ''03:20''" "format_time 30 = ''00:30''"
    by (simp_all add: format_time_def py_int_def fmt02_def zfill_def decimal.simps digit_char_def)
  have p: "py_int (200 / 200 * 1000) = 1000" "py_int (30 / 200 * 1000) = 150"
    by (simp_all add: py_int_def)
  show ?thesis
    using elapsed_never_exceeds_length [OF l(1), of True 1250 False]
      elapsed_never_exceeds_length [OF l(1), of True 1030 False] l
    by (simp add: e1 e2 f p py_int_def)
qed

subsection \<open>The invariant of the pause offset\<close>

lemma pwl_kill_ffplay [simp]: "pause_within_length (kill_ffplay st) = pause_within_length st"
  by (simp add: pause_within_length_def)

lemma pwl_update_icon [simp]:
  "pause_within_length (update_play_pause_icon b st) = pause_within_length st"
  by (simp add: pause_within_length_def)

lemma pwl_start_ffplay [simp]:
  "pause_within_length (start_ffplay popen now s st) = pause_within_length st"
  by (simp add: pause_within_length_def)

lemma pwl_setValue [simp]: "pause_within_length (setValue v st) = pause_within_length st"
  by (simp add: pause_within_length_def setValue_def)

lemma pwl_play_pause_toggle:
  "pause_within_length st \<Longrightarrow> pause_within_length (play_pause_toggle running now popen st)"
  by (auto simp add: play_pause_toggle_def Let_def pause_within_length_def)

lemma pwl_scrub: "pause_within_length st \<Longrightarrow> pause_within_length (scrub now popen st)"
  by (auto simp add: scrub_def Let_def pause_within_length_def)

lemma pwl_update_slider:
  "pause_within_length st \<Longrightarrow> pause_within_length (update_slider running exited now st)"
  by (auto simp add: update_slider_def Let_def pause_within_length_def setValue_def)

lemma pwl_update_preview_time [simp]:
  "pause_within_length (update_preview_time v st) = pause_within_length st"
  by (simp add: update_preview_time_def Let_def pause_within_length_def)

lemma stop_internal_fields:
  "pause_time (stop_internal st) = 0" "length_sec (stop_internal st) = length_sec st"
  by (simp_all add: stop_internal_def Let_def setValue_def)

lemma extract_metadata_fields:
  "pause_time (state_of (extract_metadata w path st)) = pause_time st"
  "length_sec (state_of (extract_metadata w path st)) = length_sec st"
  by (simp_all add: extract_metadata_def Let_def split: sum.split prod.split)

lemma pwl_load_file:
  assumes "pause_within_length st"
  shows "pause_within_length (state_of (load_file w now popen path st))"
proof -
  define st2 where "st2 = (stop_internal st)\<lparr>current_file := Some path, start_time := 0,
    pause_time := 0, slider_enabled := False\<rparr>"
  have l: "0 \<le> length_sec st" using assms by (simp add: pause_within_length_def)
  have s2: "pause_time st2 = 0" "length_sec st2 = length_sec st"
    by (simp_all add: st2_def stop_internal_fields)
  define c where "c = extract_metadata w path st2"
  have c3: "pause_time (state_of c) = 0" "length_sec (state_of c) = length_sec st"
    by (simp_all add: c_def extract_metadata_fields s2)
  have lf: "load_file w now popen path st =
      (case c of
         Raised e st3 \<Rightarrow> Raised e st3
       | Normal st3 \<Rightarrow>
           (case MutagenFile w path of
              Inl e \<Rightarrow> Raised e st3
            | Inr audio \<Rightarrow>
                (let length0 = mutagen_length audio;
                     length1 = (if length0 \<le> 0.0001 then get_duration_with_ffprobe w path
                                else length0);
                     st4 = st3\<lparr>length_sec := (if 0 < length1 then length1 else 0)\<rparr>;
                     st5 = st4\<lparr>slider_enabled := (0 < length_sec st4)\<rparr>
                 in Normal (update_play_pause_icon True
                              (start_ffplay popen now (pause_time st5) st5)))))"
    by (simp add: load_file_def Let_def c_def st2_def)
  show ?thesis
  proof (cases c)
    case (Raised e st3)
    then show ?thesis using c3 l by (simp add: lf pause_within_length_def)
  next
    case (Normal st3)
    then have p: "pause_time st3 = 0" using c3 by simp
    show ?thesis
    proof (cases "MutagenFile w path")
      case (Inl e)
      then show ?thesis using Normal c3 l by (simp add: lf pause_within_length_def)
    next
      case (Inr audio)
      then show ?thesis using Normal p
        by (simp add: lf Let_def pause_within_length_def)
    qed
  qed
qed

lemma pwl_step: "pause_within_length st \<Longrightarrow> pause_within_length (step e st)"
proof (cases e)
  case (LoadFile w now popen path)
  assume "pause_within_length st"
  then show ?thesis using LoadFile by (simp add: pwl_load_file)
next
  case (OpenFileDialog w now popen path)
  assume "pause_within_length st"
  then show ?thesis using OpenFileDialog by (simp add: open_file_dialog_def pwl_load_file)
next
  case (PlayPauseClicked running now popen)
  assume "pause_within_length st"
  then show ?thesis using PlayPauseClicked by (simp add: pwl_play_pause_toggle)
next
  case SliderPressed
  assume "pause_within_length st"
  then show ?thesis using SliderPressed by (simp add: slider_pressed_def pause_within_length_def)
next
  case (SliderMoved v)
  assume "pause_within_length st"
  then show ?thesis using SliderMoved by simp
next
  case (SliderReleased now popen)
  assume "pause_within_length st"
  then show ?thesis using SliderReleased by (simp add: pwl_scrub)
next
  case (MousePress left x w now popen)
  assume "pause_within_length st"
  then show ?thesis using MousePress
    by (simp add: mousePressEvent_def pwl_scrub split: sum.split)
next
  case (TimerTimeout running exited now)
  assume "pause_within_length st"
  then show ?thesis using TimerTimeout by (simp add: pwl_update_slider)
next
  case CloseEvent
  assume "pause_within_length st"
  then show ?thesis using CloseEvent by (simp add: closeEvent_def)
qed

lemma pwl_run: "pause_within_length st \<Longrightarrow> pause_within_length (run es st)"
  by (induction es arbitrary: st) (simp_all add: pwl_step)

lemma pwl_init: "pause_within_length (init w)"
  by (simp add: init_def pause_within_length_def)

text \<open>
  C4. In every state the window reaches from \<^verbatim>\<open>__init__\<close> by any sequence of events,
  whatever the environment answers, the length is at least zero and the pause offset
  lies between zero and the length; and every single event preserves this from any
  state that has it.
\<close>

theorem pause_offset_within_length:
  "pause_within_length (run es (init w))
   \<and> 0 \<le> length_sec (run es (init w))
   \<and> pause_time (run es (init w)) \<le> length_sec (run es (init w))
   \<and> (\<forall>e st. pause_within_length st \<longrightarrow> pause_within_length (step e st))"
proof -
  have "pause_within_length (run es (init w))"
    using pwl_init by (rule pwl_run)
  moreover from this have "0 \<le> length_sec (run es (init w))"
    and "pause_time (run es (init w)) \<le> length_sec (run es (init w))"
    by (simp_all add: pause_within_length_def)
  moreover have "\<forall>e st. pause_within_length st \<longrightarrow> pause_within_length (step e st)"
    by (simp add: pwl_step)
  ultimately show ?thesis by simp
qed

theorem pause_offset_within_length_witness:
  "pause_within_length playing_state
   \<and> pause_within_length (step (PlayPauseClicked True 1042 (Inr 8)) playing_state)
   \<and> pause_time (step (PlayPauseClicked True 1042 (Inr 8)) playing_state) = 42
   \<and> pause_time (step (PlayPauseClicked True 1500 (Inr 8)) playing_state) = 200
   \<and> pause_within_length (run [LoadFile unknown_type_world 1000 (Inr 7) ''/music/song.mp3'',
                                TimerTimeout True False 1001, SliderReleased 1002 (Inr 8)]
                             (init unknown_type_world))"
proof -
  have p: "pause_within_length playing_state"
    by (simp add: pause_within_length_def playing_state_def init_def)
  have a: "pause_time (step (PlayPauseClicked True 1042 (Inr 8)) playing_state) = 42"
    "pause_time (step (PlayPauseClicked True 1500 (Inr 8)) playing_state) = 200"
    by (simp_all add: play_pause_toggle_def Let_def playing_state_def)
  from pause_offset_within_length
    [of "[LoadFile unknown_type_world 1000 (Inr 7) ''/music/song.mp3'',
          TimerTimeout True False 1001, SliderReleased 1002 (Inr 8)]" unknown_type_world]
  have r: "pause_within_length (run [LoadFile unknown_type_world 1000 (Inr 7) ''/music/song.mp3'',
                                TimerTimeout True False 1001, SliderReleased 1002 (Inr 8)]
                             (init unknown_type_world))"
    and s: "\<forall>e st. pause_within_length st \<longrightarrow> pause_within_length (step e st)"
    by blast+
  from s p have "pause_within_length (step (PlayPauseClicked True 1042 (Inr 8)) playing_state)"
    by blast
  with p a r show ?thesis by simp
qed

subsection \<open>Metadata of unknown and malformed files\<close>

lemma read_tags_id3_raises:
  assumes "ID3 w path = Inl e" and "\<not> is_FLAC a"
  shows "read_tags w path file_name (Some a) loc = loc"
  using assms by (simp add: read_tags_def read_id3_def read_flac_def split: prod.split)

lemma extract_metadata_returns:
  assumes "MutagenFile w path = Inr audio"
  shows "\<not> raised (extract_metadata w path st)"
  using assms by (simp add: extract_metadata_def Let_def split: prod.split)

lemma extract_metadata_unknown_type:
  assumes "MutagenFile w path = Inr None"
  shows "extract_metadata w path st
           = Normal (st\<lparr>title_label := basename path, album_art_label := load_default_pixmap w\<rparr>)"
  using assms by (simp add: extract_metadata_def Let_def read_tags_def load_default_pixmap_def)

text \<open>
  C5. The claim is that \<^verbatim>\<open>extract_metadata\<close> never raises on an unknown or malformed
  file. It holds when the tag library returns (\<open>extract_metadata_returns\<close>,
  \<open>extract_metadata_unknown_type\<close>); it fails when \<^verbatim>\<open>MutagenFile\<close> itself raises,
  because the call on line 217 stands before the \<^verbatim>\<open>try\<close>: the exception leaves
  \<^verbatim>\<open>extract_metadata\<close>, and \<^verbatim>\<open>load_file\<close> with it.
\<close>

theorem extract_metadata_raises_on_corrupt_file:
  "MutagenFile corrupt_file_world ''/music/broken.mp3'' = Inl (LibraryError ''HeaderNotFoundError'')
   \<and> extract_metadata corrupt_file_world ''/music/broken.mp3'' (init corrupt_file_world)
       = Raised (LibraryError ''HeaderNotFoundError'') (init corrupt_file_world)
   \<and> raised (load_file corrupt_file_world 1000 (Inr 7) ''/music/broken.mp3''
               (init corrupt_file_world))"
  by (simp add: extract_metadata_def load_file_def Let_def corrupt_file_world_def
      unreadable_tags_world_def)

text \<open>
  C6, as stated, says the title shown after a failed tag read is the empty string.
  For \<^verbatim>\<open>/music/song.mp3\<close> with an unreadable ID3 header the title shown is
  \<^verbatim>\<open>song.mp3\<close>.
\<close>

theorem unreadable_tags_title_counterexample:
  "MutagenFile unreadable_tags_world ''/music/song.mp3'' = Inr (Some mp3_audio)
   \<and> ID3 unreadable_tags_world ''/music/song.mp3'' = Inl (LibraryError ''ID3NoHeaderError'')
   \<and> title_label (state_of (extract_metadata unreadable_tags_world ''/music/song.mp3''
                     (init unreadable_tags_world))) = ''song.mp3''
   \<and> title_label (state_of (extract_metadata unreadable_tags_world ''/music/song.mp3''
                     (init unreadable_tags_world))) \<noteq> []"
  by (simp add: extract_metadata_def Let_def read_tags_def read_id3_def read_flac_def
      unreadable_tags_world_def mp3_audio_def basename_def)

text \<open>
  C6, amended. When the tag library opens the file, the ID3 read raises and the file
  is not a FLAC file, \<^verbatim>\<open>extract_metadata\<close> returns normally; the title it shows is the
  base name of the path, with no artist (the artist stays the empty string), and the
  artwork is the default artwork of \<^verbatim>\<open>load_default_pixmap\<close>.
\<close>

theorem unreadable_tags_fall_back_to_file_name:
  assumes "MutagenFile w path = Inr (Some a)" and "ID3 w path = Inl e" and "\<not> is_FLAC a"
  shows "extract_metadata w path st
           = Normal (st\<lparr>title_label := basename path, album_art_label := load_default_pixmap w\<rparr>)
       \<and> read_tags w path (basename path) (Some a) (basename path, [], default_source_pixmap w)
           = (basename path, [], default_source_pixmap w)"
  using assms read_tags_id3_raises [OF assms(2,3)]
  by (simp add: extract_metadata_def Let_def load_default_pixmap_def)

theorem unreadable_tags_fall_back_to_file_name_witness:
  "MutagenFile unreadable_tags_world ''/music/song.mp3'' = Inr (Some mp3_audio)
   \<and> ID3 unreadable_tags_world ''/music/song.mp3'' = Inl (LibraryError ''ID3NoHeaderError'')
   \<and> \<not> is_FLAC mp3_audio
   \<and> extract_metadata unreadable_tags_world ''/music/song.mp3'' playing_state
       = Normal (playing_state\<lparr>title_label := ''song.mp3'',
                                album_art_label := Rounded DefaultAlbumArt\<rparr>)"
proof -
  have h: "MutagenFile unreadable_tags_world ''/music/song.mp3'' = Inr (Some mp3_audio)"
    "ID3 unreadable_tags_world ''/music/song.mp3'' = Inl (LibraryError ''ID3NoHeaderError'')"
    "\<not> is_FLAC mp3_audio"
    by (simp_all add: unreadable_tags_world_def mp3_audio_def)
  have b: "basename ''/music/song.mp3'' = ''song.mp3''"
    by (simp add: basename_def)
  have d: "load_default_pixmap unreadable_tags_world = Rounded DefaultAlbumArt"
    by (simp add: load_default_pixmap_def default_source_pixmap_def unreadable_tags_world_def)
  show ?thesis
    using h unreadable_tags_fall_back_to_file_name [OF h, of playing_state]
    by (simp add: b d)
qed

subsection \<open>Duration without \<^verbatim>\<open>ffprobe\<close>\<close>

lemma get_duration_with_ffprobe_failing:
  assumes "\<not> which_ffprobe w \<or> (\<exists>e. check_output w path = Inl e) \<or> check_output w path = Inr []"
  shows "get_duration_with_ffprobe w path = 0"
  using assms by (auto simp add: get_duration_with_ffprobe_def)

lemma load_file_normal:
  assumes "MutagenFile w path = Inr audio"
  shows "\<exists>st'. load_file w now popen path st = Normal st'
           \<and> length_sec st' = (let l0 = mutagen_length audio;
                                    l1 = (if l0 \<le> 0.0001 then get_duration_with_ffprobe w path else l0)
                                in if 0 < l1 then l1 else 0)
           \<and> slider_enabled st' = (0 < length_sec st')"
proof -
  define st2 where "st2 = (stop_internal st)\<lparr>current_file := Some path, start_time := 0,
    pause_time := 0, slider_enabled := False\<rparr>"
  obtain st3 where e: "extract_metadata w path st2 = Normal st3"
    using assms by (cases "extract_metadata w path st2")
      (auto simp add: extract_metadata_def Let_def split: prod.splits)
  show ?thesis
    using assms e by (simp add: load_file_def Let_def st2_def)
qed

lemma load_file_length_nonneg:
  assumes "load_file w now popen path st = Normal st'"
  shows "0 \<le> length_sec st' \<and> slider_enabled st' = (0 < length_sec st')"
proof (cases "MutagenFile w path")
  case (Inl e)
  then have "raised (load_file w now popen path st)"
    by (simp add: load_file_def extract_metadata_def Let_def)
  with assms show ?thesis by simp
next
  case (Inr audio)
  from load_file_normal [OF Inr, of now popen st] assms show ?thesis
    by (auto simp add: Let_def)
qed

text \<open>
  C7. When \<^verbatim>\<open>ffprobe\<close> is absent, or its invocation raises, or its output is empty,
  \<^verbatim>\<open>get_duration_with_ffprobe\<close> returns zero (it has no raising path). When
  \<^verbatim>\<open>load_file\<close> then consults it, that is when the tag library has opened the file and
  given no length above 0.0001, \<^verbatim>\<open>load_file\<close> returns with length zero and the slider
  disabled. Whenever \<^verbatim>\<open>load_file\<close> returns, the length is at least zero and the slider
  is enabled exactly when the length is positive.
\<close>

theorem failing_ffprobe_gives_zero_duration:
  assumes "\<not> which_ffprobe w \<or> (\<exists>e. check_output w path = Inl e) \<or> check_output w path = Inr []"
  shows "get_duration_with_ffprobe w path = 0
       \<and> (\<forall>audio. MutagenFile w path = Inr audio \<and> mutagen_length audio \<le> 0.0001 \<longrightarrow>
            (\<exists>st'. load_file w now popen path st = Normal st'
                    \<and> length_sec st' = 0 \<and> \<not> slider_enabled st'))
       \<and> (\<forall>st'. load_file w now popen path st = Normal st' \<longrightarrow>
            0 \<le> length_sec st' \<and> slider_enabled st' = (0 < length_sec st'))"
proof -
  have g: "get_duration_with_ffprobe w path = 0"
    using assms by (rule get_duration_with_ffprobe_failing)
  have "\<exists>st'. load_file w now popen path st = Normal st' \<and> length_sec st' = 0 \<and> \<not> slider_enabled st'"
    if "MutagenFile w path = Inr audio" and "mutagen_length audio \<le> 0.0001" for audio
    using load_file_normal [OF that(1), of now popen st] that(2) by (auto simp add: g Let_def)
  then show ?thesis
    using g load_file_length_nonneg by blast
qed

theorem failing_ffprobe_gives_zero_duration_witness:
  "\<not> which_ffprobe unknown_type_world
   \<and> get_duration_with_ffprobe unknown_type_world ''/music/song.xyz'' = 0
   \<and> MutagenFile unknown_type_world ''/music/song.xyz'' = Inr None
   \<and> mutagen_length None \<le> 0.0001
   \<and> \<not> raised (load_file unknown_type_world 1000 (Inr 7) ''/music/song.xyz'' (init unknown_type_world))
   \<and> length_sec (state_of (load_file unknown_type_world 1000 (Inr 7) ''/music/song.xyz''
                    (init unknown_type_world))) = 0
   \<and> \<not> slider_enabled (state_of (load_file unknown_type_world 1000 (Inr 7) ''/music/song.xyz''
                    (init unknown_type_world)))"
proof -
  have h: "\<not> which_ffprobe unknown_type_world"
    "MutagenFile unknown_type_world ''/music/song.xyz'' = Inr None"
    "mutagen_length None \<le> 0.0001"
    by (simp_all add: unknown_type_world_def unreadable_tags_world_def mutagen_length_def)
  have a: "\<not> which_ffprobe unknown_type_world
    \<or> (\<exists>e. check_output unknown_type_world ''/music/song.xyz'' = Inl e)
    \<or> check_output unknown_type_world ''/music/song.xyz'' = Inr []"
    using h(1) by simp
  from failing_ffprobe_gives_zero_duration [OF a, of 1000 "Inr 7" "init unknown_type_world"] h
  obtain st' where "get_duration_with_ffprobe unknown_type_world ''/music/song.xyz'' = 0"
    and "load_file unknown_type_world 1000 (Inr 7) ''/music/song.xyz'' (init unknown_type_world)
           = Normal st'"
    and "length_sec st' = 0" and "\<not> slider_enabled st'"
    by blast
  with h show ?thesis by simp
qed

subsection \<open>Pause and resume in double precision\<close>

lemma two_powi_Suc: "(2::real) powi (k + 1) = 2 * 2 powi k"
  by (simp add: power_int_add)

lemma two_powi_pred: "(2::real) powi (k - 1) = 2 powi k / 2"
  by (simp add: power_int_diff)

lemma exponent_from_bounds:
  "2 powi (- int n) \<le> x \<Longrightarrow> x < 2 powi (int n + 1) \<Longrightarrow>
   2 powi (exponent_from n x) \<le> x \<and> x < 2 powi (exponent_from n x + 1)"
proof (induction n arbitrary: x)
  case 0
  then show ?case by simp
next
  case (Suc n)
  have e1: "- int (Suc n) = - int n - 1" and e2: "int (Suc n) + 1 = (int n + 1) + 1"
    by simp_all
  have "(2::real) powi (- int (Suc n)) = 2 powi (- int n) / 2"
    by (simp only: e1 two_powi_pred)
  with Suc.prems(1) have lo: "2 powi (- int n) / 2 \<le> x"
    by (simp only:)
  have "(2::real) powi (int (Suc n) + 1) = 2 * 2 powi (int n + 1)"
    by (simp only: e2 two_powi_Suc)
  with Suc.prems(2) have hi: "x < 2 * 2 powi (int n + 1)"
    by (simp only:)
  have small: "(2::real) powi (- int n) \<le> 1"
    using power_int_increasing [of "- int n" 0 "2::real"] by simp
  have big: "(2::real) \<le> 2 powi (int n + 1)"
    using power_int_increasing [of 1 "int n + 1" "2::real"] by simp
  show ?case
  proof (cases "2 \<le> x")
    case True
    have "2 powi (- int n) \<le> x / 2" using True small by simp
    moreover have "x / 2 < 2 powi (int n + 1)" using hi by simp
    ultimately have "2 powi (exponent_from n (x / 2)) \<le> x / 2
        \<and> x / 2 < 2 powi (exponent_from n (x / 2) + 1)"
      by (rule Suc.IH)
    then show ?thesis
      using True two_powi_Suc [of "exponent_from n (x / 2)"]
        two_powi_Suc [of "exponent_from n (x / 2) + 1"]
      by simp
  next
    case False
    show ?thesis
    proof (cases "x < 1")
      case True
      have "2 powi (- int n) \<le> 2 * x" using lo by simp
      moreover have "2 * x < 2 powi (int n + 1)" using True big by simp
      ultimately have "2 powi (exponent_from n (2 * x)) \<le> 2 * x
          \<and> 2 * x < 2 powi (exponent_from n (2 * x) + 1)"
        by (rule Suc.IH)
      then have "2 powi (exponent_from n (2 * x)) / 2 \<le> x"
        and "x < 2 powi (exponent_from n (2 * x))"
        using two_powi_Suc [of "exponent_from n (2 * x)"] by simp_all
      then have "2 powi (exponent_from n (2 * x) - 1) \<le> x"
        and "x < 2 powi (exponent_from n (2 * x) - 1 + 1)"
        by (simp_all only: two_powi_pred diff_add_cancel)
      then show ?thesis
        using True False by simp
    next
      case x1: False
      with False show ?thesis by simp
    qed
  qed
qed

lemma binade_unique:
  fixes x :: real
  assumes "2 powi a \<le> x" "x < 2 powi (a + 1)" "2 powi b \<le> x" "x < 2 powi (b + 1)"
  shows "a = b"
proof -
  have "a < b + 1"
  proof (rule ccontr)
    assume "\<not> a < b + 1"
    then have "(2::real) powi (b + 1) \<le> 2 powi a"
      by (intro power_int_increasing) simp_all
    with assms(1,4) show False by simp
  qed
  moreover have "b < a + 1"
  proof (rule ccontr)
    assume "\<not> b < a + 1"
    then have "(2::real) powi (a + 1) \<le> 2 powi b"
      by (intro power_int_increasing) simp_all
    with assms(2,3) show False by simp
  qed
  ultimately show ?thesis by simp
qed

lemma double_exponent_bounds:
  assumes "2 powi (-1100) \<le> \<bar>x\<bar>" and "\<bar>x\<bar> < 2 powi 1101"
  shows "2 powi (double_exponent x) \<le> \<bar>x\<bar> \<and> \<bar>x\<bar> < 2 powi (double_exponent x + 1)"
  using exponent_from_bounds [of 1100 "\<bar>x\<bar>"] assms by (simp add: double_exponent_def)

lemma double_exponent_eq:
  assumes "2 powi e \<le> \<bar>x\<bar>" and "\<bar>x\<bar> < 2 powi (e + 1)" and "- 1100 \<le> e" and "e \<le> 1100"
  shows "double_exponent x = e"
proof -
  have "(2::real) powi (-1100) \<le> 2 powi e"
    using assms(3) by (intro power_int_increasing) simp_all
  then have lo: "2 powi (-1100) \<le> \<bar>x\<bar>" using assms(1) by simp
  have "(2::real) powi (e + 1) \<le> 2 powi 1101"
    using assms(4) by (intro power_int_increasing) simp_all
  then have hi: "\<bar>x\<bar> < 2 powi 1101" using assms(2) by simp
  from double_exponent_bounds [OF lo hi] assms(1,2) show ?thesis
    by (auto intro: binade_unique)
qed

lemma round_double_eval:
  assumes "2 powi e \<le> \<bar>x\<bar>" and "\<bar>x\<bar> < 2 powi (e + 1)" and "- 1100 \<le> e" and "e \<le> 1100"
  shows "round_double x = of_int (py_round (x / 2 powi (e - 52))) * 2 powi (e - 52)"
proof -
  have "0 < (2::real) powi e" by simp
  with assms(1) have "0 < \<bar>x\<bar>" by linarith
  then have "x \<noteq> 0" by simp
  then show ?thesis
    by (simp add: round_double_def Let_def double_exponent_eq [OF assms])
qed

lemma py_round_of_int: "py_round (of_int m) = m"
  by (simp add: py_round_def)

lemma py_round_error: "\<bar>of_int (py_round y) - y\<bar> \<le> 1 / 2"
proof -
  have "of_int \<lfloor>y\<rfloor> \<le> y" "y < of_int \<lfloor>y\<rfloor> + 1" by linarith+
  then show ?thesis
    by (auto simp add: py_round_def Let_def)
qed

lemma round_double_on_grid:
  assumes x: "x = of_int k * 2 powi (e - 52)" and hi: "\<bar>x\<bar> < 2 powi (e + 1)"
    and e: "- 1048 \<le> e" "e \<le> 1100"
  shows "round_double x = x"
proof (cases "x = 0")
  case True
  then show ?thesis by (simp add: round_double_def)
next
  case False
  define u :: real where "u = 2 powi (e - 52)"
  have u0: "0 < u" by (simp add: u_def)
  have k0: "k \<noteq> 0" using False x by auto
  then have "1 \<le> \<bar>real_of_int k\<bar>" by linarith
  then have "u \<le> \<bar>real_of_int k\<bar> * u" using u0 by simp
  then have lo: "u \<le> \<bar>x\<bar>" using u0 by (simp add: x u_def abs_mult)
  have "(2::real) powi (-1100) \<le> u"
    unfolding u_def using e(1) by (intro power_int_increasing) simp_all
  then have lo': "2 powi (-1100) \<le> \<bar>x\<bar>" using lo by simp
  have "(2::real) powi (e + 1) \<le> 2 powi 1101"
    using e(2) by (intro power_int_increasing) simp_all
  then have hi': "\<bar>x\<bar> < 2 powi 1101" using hi by simp
  define d where "d = double_exponent x"
  from double_exponent_bounds [OF lo' hi']
  have b: "2 powi d \<le> \<bar>x\<bar>" "\<bar>x\<bar> < 2 powi (d + 1)" by (simp_all add: d_def)
  have "d < e + 1"
  proof (rule ccontr)
    assume "\<not> d < e + 1"
    then have "(2::real) powi (e + 1) \<le> 2 powi d"
      by (intro power_int_increasing) simp_all
    with b(1) hi show False by simp
  qed
  then have de: "0 \<le> e - d" by simp
  have "(2::real) powi (e - 52) = 2 powi (e - d) * 2 powi (d - 52)"
    by (simp flip: power_int_add)
  also have "(2::real) powi (e - d) = of_int (2 ^ nat (e - d))"
    using de by (simp add: power_int_def)
  finally have g: "x = of_int (k * 2 ^ nat (e - d)) * 2 powi (d - 52)"
    by (simp add: x)
  have "x / 2 powi (d - 52) = of_int (k * 2 ^ nat (e - d))"
    by (subst g) simp
  then have "py_round (x / 2 powi (d - 52)) = k * 2 ^ nat (e - d)"
    by (simp only: py_round_of_int)
  then have "round_double x = of_int (k * 2 ^ nat (e - d)) * 2 powi (d - 52)"
    using False by (simp add: round_double_def Let_def d_def)
  with g show ?thesis by simp
qed

lemma round_double_error:
  assumes "2 powi e \<le> \<bar>x\<bar>" and "\<bar>x\<bar> < 2 powi (e + 1)" and "- 1100 \<le> e" and "e \<le> 1100"
  shows "\<bar>round_double x - x\<bar> \<le> 2 powi (e - 53)"
    and "\<exists>k. round_double x = of_int k * 2 powi (e - 52)"
proof -
  define u :: real where "u = 2 powi (e - 52)"
  have u0: "0 < u" by (simp add: u_def)
  have r: "round_double x = of_int (py_round (x / u)) * u"
    unfolding u_def using assms by (rule round_double_eval)
  then show "\<exists>k. round_double x = of_int k * 2 powi (e - 52)"
    unfolding u_def by blast
  have "round_double x - x = (of_int (py_round (x / u)) - x / u) * u"
    using u0 by (simp add: r algebra_simps)
  then have "\<bar>round_double x - x\<bar> = \<bar>of_int (py_round (x / u)) - x / u\<bar> * u"
    using u0 by (simp add: abs_mult)
  also have "\<dots> \<le> 1 / 2 * u"
    using py_round_error [of "x / u"] u0 by (intro mult_right_mono) simp_all
  also have "1 / 2 * u = 2 powi (e - 53)"
  proof -
    have "e - 53 = (e - 52) - 1" by simp
    then show ?thesis by (simp only: u_def two_powi_pred)
  qed
  finally show "\<bar>round_double x - x\<bar> \<le> 2 powi (e - 53)" .
qed

lemma clamp_distance:
  fixes d p l :: real
  assumes "0 \<le> p" and "p \<le> l"
  shows "\<bar>min (max 0 d) l - p\<bar> \<le> \<bar>d - p\<bar>"
  using assms by (auto simp add: min_def max_def abs_if)

lemma start_ffplay_double_spawned:
  "current_file st \<noteq> None \<Longrightarrow>
   process (start_ffplay_double (Inr pid) now s st) = Some pid \<and>
   start_time (start_ffplay_double (Inr pid) now s st) = double_sub now s \<and>
   pause_time (start_ffplay_double (Inr pid) now s st) = pause_time st \<and>
   length_sec (start_ffplay_double (Inr pid) now s st) = length_sec st"
  by (simp add: start_ffplay_double_def Let_def)

lemma resume_rounding:
  assumes p: "0 \<le> p" "p \<le> l"
    and now: "now = of_int k * 2 powi (e - 52)"
    and lo: "2 powi e \<le> now - l" and hi: "now < 2 powi (e + 1)"
    and e: "- 1022 \<le> e" "e \<le> 1023"
  shows "double_sub now (double_sub now p) = now - double_sub now p"
    and "\<bar>(now - double_sub now p) - p\<bar> \<le> 2 powi (e - 53)"
    and "(\<exists>j. now - p = of_int j * 2 powi (e - 52)) \<longrightarrow> now - double_sub now p = p"
proof -
  define u :: real where "u = 2 powi (e - 52)"
  define x where "x = now - p"
  define s where "s = double_sub now p"
  have pe: "0 < (2::real) powi e" by simp
  have x1: "2 powi e \<le> x" using lo p by (simp add: x_def)
  have x2: "x < 2 powi (e + 1)" using hi p by (simp add: x_def)
  have ax: "\<bar>x\<bar> = x" using x1 pe by linarith
  have e': "- 1100 \<le> e" "e \<le> 1100" "- 1048 \<le> e" using e by simp_all
  have s_def': "s = round_double x" by (simp add: s_def x_def double_sub_def)
  have err: "\<bar>s - x\<bar> \<le> 2 powi (e - 53)"
    unfolding s_def' using x1 x2 e'(1,2) by (intro round_double_error(1)) (simp_all add: ax)
  obtain r where r: "s = of_int r * u"
    unfolding s_def' u_def using round_double_error(2) [of e x] x1 x2 e'(1,2)
    by (auto simp add: ax)
  have d: "now - s = of_int (k - r) * u"
    by (simp add: now r u_def algebra_simps)
  have "(2::real) powi (e - 53) \<le> 2 powi e"
    by (intro power_int_increasing) simp_all
  moreover have "p < 2 powi e"
  proof -
    have "p = now - x" by (simp add: x_def)
    also have "\<dots> < 2 powi (e + 1) - 2 powi e" using hi x1 by simp
    also have "\<dots> = 2 powi e" by (simp add: two_powi_Suc)
    finally show ?thesis .
  qed
  moreover have "now - s = p + (x - s)" by (simp add: x_def)
  ultimately have "\<bar>now - s\<bar> < 2 powi e + 2 powi e"
    using err p(1) by (simp add: abs_if split: if_splits)
  then have dhi: "\<bar>now - s\<bar> < 2 powi (e + 1)" by (simp add: two_powi_Suc)
  have "round_double (now - s) = now - s"
    using d [unfolded u_def] dhi e'(3,2) by (rule round_double_on_grid)
  then show "double_sub now (double_sub now p) = now - double_sub now p"
    by (simp add: double_sub_def s_def)
  have "(now - s) - p = x - s" by (simp add: x_def)
  then show "\<bar>(now - double_sub now p) - p\<bar> \<le> 2 powi (e - 53)"
    using err by (simp add: s_def abs_minus_commute)
  show "(\<exists>j. now - p = of_int j * 2 powi (e - 52)) \<longrightarrow> now - double_sub now p = p"
  proof
    assume "\<exists>j. now - p = of_int j * 2 powi (e - 52)"
    then obtain j where j: "x = of_int j * 2 powi (e - 52)" by (auto simp add: x_def)
    have "round_double x = x"
      using j _ e'(3,2) by (rule round_double_on_grid) (simp add: ax x2)
    then show "now - double_sub now p = p"
      by (simp add: double_sub_def x_def)
  qed
qed

lemma epoch_pause: "double_sub 1730000004 1730000000 = 4"
proof -
  have "round_double 4 = of_int (py_round (4 / 2 powi (2 - 52))) * 2 powi (2 - 52)"
    by (rule round_double_eval) simp_all
  also have "\<dots> = 4"
    by (simp add: py_round_def Let_def)
  finally show ?thesis by (simp add: double_sub_def)
qed

lemma epoch_resume:
  "double_sub 1730000010 (2120913949514793 / 2 ^ 49) = 907018243267625 / 2 ^ 19"
proof -
  define x :: real where "x = 1730000010 - 2120913949514793 / 2 ^ 49"
  have "round_double x = of_int (py_round (x / 2 powi (30 - 52))) * 2 powi (30 - 52)"
    by (rule round_double_eval) (simp_all add: x_def)
  also have "py_round (x / 2 powi (30 - 52)) = 7256145946141000"
    by (simp add: x_def py_round_def Let_def)
  finally show ?thesis by (simp add: double_sub_def x_def)
qed

lemma epoch_elapsed:
  "double_sub 1730000010 (907018243267625 / 2 ^ 19) = 1975255 / 2 ^ 19"
proof -
  define x :: real where "x = 1730000010 - 907018243267625 / 2 ^ 19"
  have "round_double x = of_int (py_round (x / 2 powi (1 - 52))) * 2 powi (1 - 52)"
    by (rule round_double_eval) (simp_all add: x_def)
  also have "py_round (x / 2 powi (1 - 52)) = 1975255 * 2 ^ 32"
    by (simp add: x_def py_round_def Let_def)
  finally show ?thesis by (simp add: double_sub_def x_def)
qed

text \<open>
  C1, as stated, says the elapsed position right after resuming equals the pause
  offset \<open>p\<close>. For the track of length 3.7675 playing since 1730000000, paused at
  1730000004 (so \<open>p\<close> is the length) and resumed at 1730000010, \<^verbatim>\<open>start_time\<close> becomes
  1730000006.2325 and the clock reading minus \<^verbatim>\<open>start_time\<close> is 1975255 / 2 ^ 19, about
  3.76749992, which is not \<open>p\<close>; neither is the elapsed time \<^verbatim>\<open>update_slider\<close> computes.
\<close>

theorem pause_resume_rounding_counterexample:
  "pause_time (play_pause_toggle_double True 1730000004 (Inr 8) epoch_state)
     = 2120913949514793 / 2 ^ 49
   \<and> start_time (play_pause_toggle_double False 1730000010 (Inr 9)
                   (play_pause_toggle_double True 1730000004 (Inr 8) epoch_state))
     = 907018243267625 / 2 ^ 19
   \<and> double_sub 1730000010
        (start_time (play_pause_toggle_double False 1730000010 (Inr 9)
                       (play_pause_toggle_double True 1730000004 (Inr 8) epoch_state)))
     = 1975255 / 2 ^ 19
   \<and> double_sub 1730000010
        (start_time (play_pause_toggle_double False 1730000010 (Inr 9)
                       (play_pause_toggle_double True 1730000004 (Inr 8) epoch_state)))
     \<noteq> pause_time (play_pause_toggle_double True 1730000004 (Inr 8) epoch_state)
   \<and> update_slider_elapsed_double True 1730000010
        (play_pause_toggle_double False 1730000010 (Inr 9)
           (play_pause_toggle_double True 1730000004 (Inr 8) epoch_state))
     \<noteq> pause_time (play_pause_toggle_double True 1730000004 (Inr 8) epoch_state)"
proof -
  define L :: real where "L = 2120913949514793 / 2 ^ 49"
  define P where "P = play_pause_toggle_double True 1730000004 (Inr 8) epoch_state"
  define R where "R = play_pause_toggle_double False 1730000010 (Inr 9) P"
  have s: "current_file epoch_state \<noteq> None" "process epoch_state \<noteq> None"
    "start_time epoch_state = 1730000000" "length_sec epoch_state = L"
    by (simp_all add: epoch_state_def playing_state_def L_def)
  have c: "max 0 (min 4 L) = L" by (simp add: L_def)
  have P: "P = kill_ffplay (epoch_state\<lparr>pause_time := L\<rparr>)"
    using s(1,2) by (auto simp add: P_def play_pause_toggle_double_def Let_def s(3,4) epoch_pause c)
  have p: "pause_time P = L" "process P = None" "current_file P \<noteq> None" "length_sec P = L"
    using s by (simp_all add: P)
  have R: "R = start_ffplay_double (Inr 9) 1730000010 L P"
    using p by (auto simp add: R_def play_pause_toggle_double_def)
  from start_ffplay_double_spawned [OF p(3), of 9 1730000010 L]
  have r: "start_time R = double_sub 1730000010 L" "process R = Some 9" "length_sec R = L"
    by (simp_all add: R p)
  have r': "start_time R = 907018243267625 / 2 ^ 19"
    unfolding r(1) L_def by (rule epoch_resume)
  have d: "double_sub 1730000010 (start_time R) = 1975255 / 2 ^ 19"
    unfolding r' by (rule epoch_elapsed)
  have ne: "(1975255 / 2 ^ 19 :: real) \<noteq> L" by (simp add: L_def)
  have lt: "(1975255 / 2 ^ 19 :: real) \<le> L" "(0::real) \<le> 1975255 / 2 ^ 19"
    by (simp_all add: L_def)
  have u: "update_slider_elapsed_double True 1730000010 R = 1975255 / 2 ^ 19"
    unfolding update_slider_elapsed_double_def Let_def d r(2,3) using lt by simp
  have "pause_time P = L \<and> start_time R = 907018243267625 / 2 ^ 19
      \<and> double_sub 1730000010 (start_time R) = 1975255 / 2 ^ 19
      \<and> double_sub 1730000010 (start_time R) \<noteq> pause_time P
      \<and> update_slider_elapsed_double True 1730000010 R \<noteq> pause_time P"
    unfolding d u p(1) using r' ne by (simp only: simp_thms)
  then show ?thesis
    unfolding P_def R_def L_def .
qed

text \<open>
  C1, amended. Pause, then resume, in double precision. For a loaded track with a
  running child and a length of at least zero: the toggle stores the pause offset
  \<open>p\<close>, the clock reading minus \<^verbatim>\<open>start_time\<close> clamped to \<open>[0, length]\<close>, and drops the
  process. The next toggle, when the child starts at a clock reading \<open>now2\<close> that is a
  double with \<open>2 ^ e \<le> now2 - length\<close> and \<open>now2 < 2 ^ (e + 1)\<close>, sets \<^verbatim>\<open>start_time\<close> to the
  rounded \<open>now2 - p\<close>. The elapsed position at the same reading, \<open>now2 - start_time\<close>, is
  then computed without rounding and differs from \<open>p\<close> by at most \<open>2 ^ (e - 53)\<close>, half
  the spacing of the doubles at the clock reading (\<open>2 ^ -23\<close> seconds for the clocks
  of 2004 to 2038, \<open>e = 30\<close>); so does the elapsed time \<^verbatim>\<open>update_slider\<close> computes
  there. Both equal \<open>p\<close> when \<open>now2 - p\<close> is itself on that spacing.
\<close>

theorem pause_resume_position_up_to_rounding:
  assumes "current_file st \<noteq> None" and "process st \<noteq> None" and "0 \<le> length_sec st"
    and "paused = play_pause_toggle_double True now1 popen1 st"
    and "resumed = play_pause_toggle_double running2 now2 (Inr pid) paused"
    and "now2 = of_int k * 2 powi (e - 52)"
    and "2 powi e \<le> now2 - length_sec st" and "now2 < 2 powi (e + 1)"
    and "- 1022 \<le> e" and "e \<le> 1023"
  shows "process paused = None
       \<and> pause_time paused = max 0 (min (double_sub now1 (start_time st)) (length_sec st))
       \<and> 0 \<le> pause_time paused \<and> pause_time paused \<le> length_sec st
       \<and> process resumed = Some pid
       \<and> start_time resumed = double_sub now2 (pause_time paused)
       \<and> double_sub now2 (start_time resumed) = now2 - start_time resumed
       \<and> \<bar>(now2 - start_time resumed) - pause_time paused\<bar> \<le> 2 powi (e - 53)
       \<and> \<bar>update_slider_elapsed_double True now2 resumed - pause_time paused\<bar> \<le> 2 powi (e - 53)
       \<and> ((\<exists>j. now2 - pause_time paused = of_int j * 2 powi (e - 52)) \<longrightarrow>
             now2 - start_time resumed = pause_time paused
             \<and> update_slider_elapsed_double True now2 resumed = pause_time paused)"
proof -
  define p where "p = max 0 (min (double_sub now1 (start_time st)) (length_sec st))"
  have pa: "paused = kill_ffplay (st\<lparr>pause_time := p\<rparr>)"
    using assms(1,2,4) by (auto simp add: play_pause_toggle_double_def Let_def p_def)
  have f: "process paused = None" "pause_time paused = p" "length_sec paused = length_sec st"
    "current_file paused \<noteq> None"
    using assms(1) by (simp_all add: pa)
  have b: "0 \<le> p" "p \<le> length_sec st"
    using assms(3) by (simp_all add: p_def)
  have re: "resumed = start_ffplay_double (Inr pid) now2 p paused"
    using f assms(5) by (auto simp add: play_pause_toggle_double_def)
  from start_ffplay_double_spawned [OF f(4), of pid now2 p]
  have sp: "process resumed = Some pid" "start_time resumed = double_sub now2 p"
    "pause_time resumed = p" "length_sec resumed = length_sec st"
    by (simp_all add: re f)
  note rr = resume_rounding [OF b assms(6,7,8,9,10)]
  define d where "d = now2 - double_sub now2 p"
  have el: "update_slider_elapsed_double True now2 resumed = min (max 0 d) (length_sec st)"
    by (simp add: update_slider_elapsed_double_def sp rr(1) d_def)
  have e1: "\<bar>d - p\<bar> \<le> 2 powi (e - 53)" using rr(2) by (simp add: d_def)
  have e2: "\<bar>min (max 0 d) (length_sec st) - p\<bar> \<le> 2 powi (e - 53)"
    using clamp_distance [OF b, of d] e1 by linarith
  have e3: "(\<exists>j. now2 - p = of_int j * 2 powi (e - 52)) \<longrightarrow>
      d = p \<and> min (max 0 d) (length_sec st) = p"
    using rr(3) b by (auto simp add: d_def)
  show ?thesis
    unfolding f(2) sp el using f(1) b sp(1) rr(1) e1 e2 e3
    by (simp add: p_def [symmetric] d_def [symmetric])
qed

theorem pause_resume_position_up_to_rounding_witness:
  "current_file epoch_state \<noteq> None \<and> process epoch_state \<noteq> None
   \<and> 0 \<le> length_sec epoch_state
   \<and> (1730000010::real) = of_int 7256145961943040 * 2 powi (30 - 52)
   \<and> 2 powi 30 \<le> 1730000010 - length_sec epoch_state
   \<and> (1730000010::real) < 2 powi (30 + 1)
   \<and> \<bar>(1730000010 - start_time (play_pause_toggle_double False 1730000010 (Inr 9)
                                   (play_pause_toggle_double True 1730000004 (Inr 8) epoch_state)))
        - pause_time (play_pause_toggle_double True 1730000004 (Inr 8) epoch_state)\<bar>
       \<le> 2 powi (30 - 53)"
proof -
  have h: "current_file epoch_state \<noteq> None" "process epoch_state \<noteq> None"
    "0 \<le> length_sec epoch_state"
    by (simp_all add: epoch_state_def playing_state_def)
  have g1: "(1730000010::real) = of_int 7256145961943040 * 2 powi (30 - 52)"
    by simp
  have g2: "2 powi 30 \<le> 1730000010 - length_sec epoch_state"
    by (simp add: epoch_state_def)
  have g3: "(1730000010::real) < 2 powi (30 + 1)"
    by simp
  have g4: "- 1022 \<le> (30::int)" "(30::int) \<le> 1023"
    by simp_all
  define P where "P = play_pause_toggle_double True 1730000004 (Inr 8) epoch_state"
  define R where "R = play_pause_toggle_double False 1730000010 (Inr 9) P"
  note t = pause_resume_position_up_to_rounding [OF h P_def R_def g1 g2 g3 g4]
  have b: "\<bar>(1730000010 - start_time R) - pause_time P\<bar> \<le> 2 powi (30 - 53)"
    using t by (elim conjE) assumption
  from h(1) h(2) h(3) g1 g2 g3 b show ?thesis
    unfolding P_def R_def by (intro conjI)
qed

end
